theory Spec2Isabelle
  imports Complex_Main "HOL-Library.Product_Lexorder" "HOL-Library.Sublist"
begin

section \<open>Data model\<close>

text \<open>
  The script \<^verbatim>\<open>scripts/backfill_stock_prices.py\<close> has two functions of interest:
  \<^verbatim>\<open>fetch_history_for_symbol\<close> (the fetcher) and \<^verbatim>\<open>insert_history_into_snowflake\<close>
  (the warehouse writer). Both talk to the outside (process environment, HTTP, a database
  connection), so the embedding passes the outside in explicitly and returns every
  exception as a value.
\<close>

subsection \<open>Exceptions\<close>

datatype error =
    KeyError string
  | RequestException
  | JSONDecodeError
  | TypeError
  | AttributeError
  | ValueError
  | DatabaseError
  | UnboundLocalError string
  | UnicodeEncodeError

definition then_do :: "error + 'a \<Rightarrow> ('a \<Rightarrow> error + 'b) \<Rightarrow> error + 'b" where
  "then_do r f = (case r of Inl e \<Rightarrow> Inl e | Inr x \<Rightarrow> f x)"

subsection \<open>Dates, floats, JSON values\<close>

text \<open>
  A \<^verbatim>\<open>datetime.date\<close> is a year, a month and a day; Python compares two dates as the
  triples (year, month, day), which is what \<open>date_ord\<close> exposes.
\<close>

datatype date = Date (year: nat) (month: nat) (day: nat)

definition date_ord :: "date \<Rightarrow> nat \<times> nat \<times> nat" where
  "date_ord d = (year d, month d, day d)"

text \<open>
  A Python float is kept as the value it denotes: a rational for a finite float, or one
  of the three special values. No arithmetic is done on floats by the script.
\<close>

datatype pyfloat = Finite rat | PosInf | NegInf | NaN

text \<open>
  What \<^verbatim>\<open>resp.json()\<close> returns. An object is the list of its items in iteration order.
\<close>

datatype json =
    JNull
  | JBool bool
  | JInt int
  | JFloat pyfloat
  | JStr string
  | JArr "json list"
  | JObj "(string \<times> json) list"

text \<open>Python truthiness, as used by \<^verbatim>\<open>a or b or c\<close>.\<close>

fun truthy :: "json \<Rightarrow> bool" where
  "truthy JNull = False"
| "truthy (JBool b) = b"
| "truthy (JInt i) = (i \<noteq> 0)"
| "truthy (JFloat f) = (f \<noteq> Finite 0)"
| "truthy (JStr s) = (s \<noteq> [])"
| "truthy (JArr xs) = (xs \<noteq> [])"
| "truthy (JObj kvs) = (kvs \<noteq> [])"

text \<open>\<^verbatim>\<open>d.get(k)\<close> on a dict: \<^verbatim>\<open>None\<close> when the key is absent.\<close>

definition dict_get :: "(string \<times> json) list \<Rightarrow> string \<Rightarrow> json" where
  "dict_get kvs k = (case map_of kvs k of None \<Rightarrow> JNull | Some v \<Rightarrow> v)"

text \<open>
  \<^verbatim>\<open>v[k]\<close> with a string key \<open>k\<close>: a dict looks the key up (\<^verbatim>\<open>KeyError\<close> when absent);
  every other JSON value raises \<^verbatim>\<open>TypeError\<close> (lists and strings want integer
  indices, the rest is not subscriptable).
\<close>

fun subscript :: "json \<Rightarrow> string \<Rightarrow> error + json" where
  "subscript (JObj kvs) k = (case map_of kvs k of None \<Rightarrow> Inl (KeyError k) | Some v \<Rightarrow> Inr v)"
| "subscript _ k = Inl TypeError"

subsection \<open>Records and rows\<close>

text \<open>
  The 7-tuple \<^verbatim>\<open>(as_of_date, symbol, o, h, l, c, v)\<close> built by the fetcher and unpacked by
  the writer; the fields carry the names of the table's columns.
\<close>

record price_record =
  as_of_date :: date
  symbol :: string
  open_price :: pyfloat
  high_price :: pyfloat
  low_price :: pyfloat
  close_price :: pyfloat
  volume :: int

text \<open>
  A row of \<^verbatim>\<open>STOCK_PRICES\<close>: the seven inserted columns and \<^verbatim>\<open>FETCHED_AT\<close>, which the
  store fills with \<^verbatim>\<open>CURRENT_TIMESTAMP()\<close>.
\<close>

record stock_row =
  row_values :: price_record
  fetched_at :: nat

definition key_of :: "price_record \<Rightarrow> date \<times> string" where
  "key_of r = (as_of_date r, symbol r)"

definition row_key :: "stock_row \<Rightarrow> date \<times> string" where
  "row_key x = key_of (row_values x)"

subsection \<open>The outside\<close>

text \<open>
  An HTTP response as the script reads it: the status code and the decoded body
  (\<open>None\<close> when the body is not JSON, where \<^verbatim>\<open>resp.json()\<close> raises). \<^verbatim>\<open>resp.ok\<close> is
  false exactly for the codes from 400 to 599.
\<close>

record response =
  status_code :: int
  json_body :: "json option"

definition ok :: "response \<Rightarrow> bool" where
  "ok resp = (\<not> (400 \<le> status_code resp \<and> status_code resp < 600))"

text \<open>
  The three library conversions the fetcher calls, taken as parameters:
  \<^verbatim>\<open>datetime.strptime(s, "%Y-%m-%d").date()\<close> (\<open>None\<close> for \<^verbatim>\<open>ValueError\<close>), \<^verbatim>\<open>float(x)\<close> and
  \<^verbatim>\<open>int(x)\<close> on a decoded JSON value.
\<close>

record pylib =
  strptime_ymd :: "string \<Rightarrow> date option"
  py_float :: "json \<Rightarrow> error + pyfloat"
  py_int :: "json \<Rightarrow> error + int"

text \<open>
  What the fetcher prints, one event per \<^verbatim>\<open>print\<close>: the three warning lines, each of
  which the source starts with the sign U+26A0, and the line with the provider's message.
\<close>

datatype log_event =
    LogRateLimited string
  | LogHttpFailure string int
  | LogUnexpected string "string list"
  | LogMessage json

text \<open>
  The world the script runs in: the process environment, the provider (what
  \<^verbatim>\<open>requests.get\<close> gives for a URL, an exception when the request itself fails), the
  standard output (the exception \<^verbatim>\<open>print\<close> raises for a line, if any: a stream whose
  encoding has no warning sign refuses the warning lines, and every stream refuses text
  it cannot encode), and the database: whether the \<open>n\<close>-th call on the connection raises,
  and the value of \<^verbatim>\<open>CURRENT_TIMESTAMP()\<close> during that call.
\<close>

record world =
  environ :: "string \<rightharpoonup> string"
  http_get :: "string \<Rightarrow> error + response"
  stdout_raises :: "log_event \<Rightarrow> error option"
  call_fails :: "nat \<Rightarrow> bool"
  current_timestamp :: "nat \<Rightarrow> nat"

section \<open>The fetcher\<close>

definition request_url :: "string \<Rightarrow> string \<Rightarrow> string" where
  "request_url ticker api_key =
     ''https://www.alphavantage.co/query'' @
     ''?function=TIME_SERIES_DAILY&symbol='' @ ticker @
     ''&outputsize=compact&apikey='' @ api_key"

definition series_key :: string where
  "series_key = ''Time Series (Daily)''"

text \<open>The body of the \<^verbatim>\<open>for date_str, vals in ts.items()\<close> loop, for one item.\<close>

definition parse_entry :: "pylib \<Rightarrow> string \<Rightarrow> string \<times> json \<Rightarrow> error + price_record" where
  "parse_entry lib ticker item =
     (case strptime_ymd lib (fst item) of
        None \<Rightarrow> Inl ValueError
      | Some d \<Rightarrow>
          then_do (then_do (subscript (snd item) ''1. open'') (py_float lib)) (\<lambda>opn.
          then_do (then_do (subscript (snd item) ''2. high'') (py_float lib)) (\<lambda>h.
          then_do (then_do (subscript (snd item) ''3. low'') (py_float lib)) (\<lambda>l.
          then_do (then_do (subscript (snd item) ''4. close'') (py_float lib)) (\<lambda>c.
          then_do (then_do (subscript (snd item) ''5. volume'') (py_int lib)) (\<lambda>v.
          Inr \<lparr>as_of_date = d, symbol = ticker, open_price = opn, high_price = h,
               low_price = l, close_price = c, volume = v\<rparr>))))))"

text \<open>The loop: records are appended in item order; the first exception ends it.\<close>

fun parse_entries :: "pylib \<Rightarrow> string \<Rightarrow> (string \<times> json) list \<Rightarrow> error + price_record list" where
  "parse_entries lib ticker [] = Inr []"
| "parse_entries lib ticker (item # items) =
     then_do (parse_entry lib ticker item) (\<lambda>r.
     then_do (parse_entries lib ticker items) (\<lambda>rs. Inr (r # rs)))"

text \<open>
  \<^verbatim>\<open>data.get('Information') or data.get('Note') or data\<close>, the value of the second
  warning line.
\<close>

definition provider_message :: "(string \<times> json) list \<Rightarrow> json" where
  "provider_message kvs =
     (if truthy (dict_get kvs ''Information'') then dict_get kvs ''Information''
      else if truthy (dict_get kvs ''Note'') then dict_get kvs ''Note''
      else JObj kvs)"

text \<open>
  One \<^verbatim>\<open>print\<close> followed by the rest of the function: when the print raises, the
  function ends there with that exception and the line is not written.
\<close>

definition print_then ::
    "world \<Rightarrow> log_event \<Rightarrow> log_event list \<times> (error + 'a) \<Rightarrow> log_event list \<times> (error + 'a)" where
  "print_then w line rest =
     (case stdout_raises w line of
        Some e \<Rightarrow> ([], Inl e)
      | None \<Rightarrow> (line # fst rest, snd rest))"

text \<open>
  Lines 38 to 69, on the decoded body. A body that is not an object raises in every
  case: the \<^verbatim>\<open>in\<close> test itself raises on \<^verbatim>\<open>None\<close>, booleans and numbers; on a list or
  a string it is a membership or substring test, after which either \<^verbatim>\<open>data.keys()\<close>
  (absent) or \<^verbatim>\<open>data["Time Series (Daily)"]\<close> (string index) raises.
  \<^verbatim>\<open>list.sort\<close> is stable, as \<open>sort_key\<close> is.
\<close>

fun handle_payload ::
    "pylib \<Rightarrow> world \<Rightarrow> string \<Rightarrow> json \<Rightarrow> log_event list \<times> (error + price_record list)" where
  "handle_payload lib w ticker (JObj kvs) =
     (case map_of kvs series_key of
        None \<Rightarrow>
          print_then w (LogUnexpected ticker (map fst kvs))
            (print_then w (LogMessage (provider_message kvs)) ([], Inr []))
      | Some (JObj items) \<Rightarrow>
          ([], then_do (parse_entries lib ticker items) (\<lambda>records.
               Inr (sort_key (\<lambda>r. date_ord (as_of_date r)) records)))
      | Some _ \<Rightarrow> ([], Inl AttributeError))"
| "handle_payload lib w ticker (JArr xs) =
     ([], Inl (if JStr series_key \<in> set xs then TypeError else AttributeError))"
| "handle_payload lib w ticker (JStr s) =
     ([], Inl (if sublist series_key s then TypeError else AttributeError))"
| "handle_payload lib w ticker _ = ([], Inl TypeError)"

definition fetch_history_for_symbol ::
    "pylib \<Rightarrow> world \<Rightarrow> string \<Rightarrow> log_event list \<times> (error + price_record list)" where
  "fetch_history_for_symbol lib w ticker =
     (case environ w ''ALPHAVANTAGE_API_KEY'' of
        None \<Rightarrow> ([], Inl (KeyError ''ALPHAVANTAGE_API_KEY''))
      | Some api_key \<Rightarrow>
          (case http_get w (request_url ticker api_key) of
             Inl e \<Rightarrow> ([], Inl e)
           | Inr resp \<Rightarrow>
               if status_code resp = 429
               then print_then w (LogRateLimited ticker) ([], Inr [])
               else if \<not> ok resp
               then print_then w (LogHttpFailure ticker (status_code resp)) ([], Inr [])
               else (case json_body resp of
                       None \<Rightarrow> ([], Inl JSONDecodeError)
                     | Some data \<Rightarrow> handle_payload lib w ticker data)))"

section \<open>The warehouse writer\<close>

subsection \<open>The database, as the writer drives it\<close>

text \<open>
  The four SQL texts the writer executes, with their bound parameters, and the calls it
  makes on the connection \<^verbatim>\<open>ctx\<close> and the cursor \<^verbatim>\<open>cs\<close>.
\<close>

datatype statement =
    CreateSchemaIfNotExists string
  | CreateTableIfNotExists string
  | DeleteFrom string date string
  | InsertInto string price_record

datatype db_call =
    Connect string string string string string string string
  | Cursor
  | Execute statement
  | Commit
  | CloseCursor
  | CloseConnection

text \<open>
  The state of the warehouse as this session sees it: the rows of each table by its fully
  qualified name, every call issued so far (in order, failed ones included), the number
  of commits done, and the connections and cursors currently open.
\<close>

record snowflake =
  tables :: "string \<rightharpoonup> stock_row list"
  calls :: "db_call list"
  commits :: nat
  open_connections :: nat
  open_cursors :: nat

definition table_rows :: "snowflake \<Rightarrow> string \<Rightarrow> stock_row list" where
  "table_rows s t = (case tables s t of None \<Rightarrow> [] | Some rows \<Rightarrow> rows)"

text \<open>
  What a call does when it succeeds, \<open>now\<close> being \<^verbatim>\<open>CURRENT_TIMESTAMP()\<close>. The primary key
  is declared but nothing in the writer relies on its enforcement: an insert appends.
  A statement on a table that does not exist has no successful outcome.
\<close>

fun effect :: "nat \<Rightarrow> db_call \<Rightarrow> snowflake \<Rightarrow> snowflake option" where
  "effect now (Connect a u p r wh db sc) s =
     Some (s\<lparr>open_connections := Suc (open_connections s)\<rparr>)"
| "effect now Cursor s = Some (s\<lparr>open_cursors := Suc (open_cursors s)\<rparr>)"
| "effect now (Execute (CreateSchemaIfNotExists n)) s = Some s"
| "effect now (Execute (CreateTableIfNotExists t)) s =
     (case tables s t of
        None \<Rightarrow> Some (s\<lparr>tables := (tables s)(t \<mapsto> [])\<rparr>)
      | Some rows \<Rightarrow> Some s)"
| "effect now (Execute (DeleteFrom t d sy)) s =
     (case tables s t of
        None \<Rightarrow> None
      | Some rows \<Rightarrow>
          Some (s\<lparr>tables := (tables s)(t \<mapsto> filter (\<lambda>x. row_key x \<noteq> (d, sy)) rows)\<rparr>))"
| "effect now (Execute (InsertInto t r)) s =
     (case tables s t of
        None \<Rightarrow> None
      | Some rows \<Rightarrow>
          Some (s\<lparr>tables := (tables s)(t \<mapsto> rows @ [\<lparr>row_values = r, fetched_at = now\<rparr>])\<rparr>))"
| "effect now Commit s = Some (s\<lparr>commits := Suc (commits s)\<rparr>)"
| "effect now CloseCursor s = Some (s\<lparr>open_cursors := open_cursors s - 1\<rparr>)"
| "effect now CloseConnection s = Some (s\<lparr>open_connections := open_connections s - 1\<rparr>)"

text \<open>
  One call: it is recorded, and it either raises (the world says so, or the statement
  cannot run) and changes nothing else, or takes effect.
\<close>

definition issue :: "world \<Rightarrow> db_call \<Rightarrow> snowflake \<Rightarrow> snowflake \<times> error option" where
  "issue w c s =
     (let n = length (calls s); s1 = s\<lparr>calls := calls s @ [c]\<rparr>
      in if call_fails w n then (s1, Some DatabaseError)
         else (case effect (current_timestamp w n) c s1 of
                 None \<Rightarrow> (s1, Some DatabaseError)
               | Some s2 \<Rightarrow> (s2, None)))"

text \<open>Sequencing: an exception skips what follows.\<close>

fun and_then ::
    "snowflake \<times> error option \<Rightarrow> (snowflake \<Rightarrow> snowflake \<times> error option) \<Rightarrow> snowflake \<times> error option" where
  "and_then (s, None) f = f s"
| "and_then (s, Some e) f = (s, Some e)"

subsection \<open>Configuration\<close>

record config =
  account :: string
  user :: string
  password :: string
  role :: string
  warehouse :: string
  database :: string
  schema :: string

definition getenv :: "world \<Rightarrow> string \<Rightarrow> error + string" where
  "getenv w k = (case environ w k of None \<Rightarrow> Inl (KeyError k) | Some v \<Rightarrow> Inr v)"

text \<open>Lines 83 to 89: six required variables, read in this order, and the schema's default.\<close>

definition read_config :: "world \<Rightarrow> error + config" where
  "read_config w =
     then_do (getenv w ''SNOWFLAKE_ACCOUNT'') (\<lambda>a.
     then_do (getenv w ''SNOWFLAKE_USER'') (\<lambda>u.
     then_do (getenv w ''SNOWFLAKE_PASSWORD'') (\<lambda>p.
     then_do (getenv w ''SNOWFLAKE_ROLE'') (\<lambda>r.
     then_do (getenv w ''SNOWFLAKE_WH'') (\<lambda>wh.
     then_do (getenv w ''SNOWFLAKE_DB'') (\<lambda>db.
     Inr \<lparr>account = a, user = u, password = p, role = r, warehouse = wh, database = db,
          schema = (case environ w ''SNOWFLAKE_RAW_SCHEMA'' of None \<Rightarrow> ''RAW'' | Some sc \<Rightarrow> sc)\<rparr>))))))"

definition fq_table :: "config \<Rightarrow> string" where
  "fq_table cfg = database cfg @ ''.'' @ schema cfg @ ''.STOCK_PRICES''"

definition connect_call :: "config \<Rightarrow> db_call" where
  "connect_call cfg =
     Connect (account cfg) (user cfg) (password cfg) (role cfg) (warehouse cfg)
       (database cfg) (schema cfg)"

subsection \<open>The writer\<close>

text \<open>Lines 144 to 147: for each record, the delete of its key, then the insert.\<close>

fun upsert_loop :: "world \<Rightarrow> string \<Rightarrow> price_record list \<Rightarrow> snowflake \<Rightarrow> snowflake \<times> error option" where
  "upsert_loop w t [] s = (s, None)"
| "upsert_loop w t (rec # records) s =
     and_then (issue w (Execute (DeleteFrom t (as_of_date rec) (symbol rec))) s) (\<lambda>s.
     and_then (issue w (Execute (InsertInto t rec)) s) (\<lambda>s.
     upsert_loop w t records s))"

text \<open>Lines 103 to 149, the \<^verbatim>\<open>try\<close> body once the cursor exists.\<close>

definition provision_and_write ::
    "world \<Rightarrow> config \<Rightarrow> price_record list \<Rightarrow> snowflake \<Rightarrow> snowflake \<times> error option" where
  "provision_and_write w cfg records s =
     and_then (issue w (Execute (CreateSchemaIfNotExists (database cfg @ ''.'' @ schema cfg))) s) (\<lambda>s.
     and_then (issue w (Execute (CreateTableIfNotExists (fq_table cfg))) s) (\<lambda>s.
     and_then (upsert_loop w (fq_table cfg) records s) (\<lambda>s.
     issue w Commit s)))"

text \<open>
  The whole function. \<^verbatim>\<open>connect\<close> is outside the \<^verbatim>\<open>try\<close>; \<^verbatim>\<open>cs = ctx.cursor()\<close> is its
  first statement, so when that call raises, the \<^verbatim>\<open>finally\<close> block reads the unbound
  local \<^verbatim>\<open>cs\<close> and raises before \<^verbatim>\<open>ctx.close()\<close>. Otherwise the \<^verbatim>\<open>finally\<close> block closes
  the cursor, then the connection, and the body's exception (if any) goes on; an
  exception of a close replaces it.
\<close>

definition insert_history_into_snowflake ::
    "world \<Rightarrow> price_record list \<Rightarrow> snowflake \<Rightarrow> snowflake \<times> error option" where
  "insert_history_into_snowflake w records s =
     (if records = [] then (s, None)
      else (case read_config w of
              Inl e \<Rightarrow> (s, Some e)
            | Inr cfg \<Rightarrow>
                and_then (issue w (connect_call cfg) s) (\<lambda>s.
                  (case issue w Cursor s of
                     (s, Some e) \<Rightarrow> (s, Some (UnboundLocalError ''cs''))
                   | (s, None) \<Rightarrow>
                       (case provision_and_write w cfg records s of
                          (s, body_exc) \<Rightarrow>
                            and_then (issue w CloseCursor s) (\<lambda>s.
                            and_then (issue w CloseConnection s) (\<lambda>s.
                            (s, body_exc))))))))"

section \<open>Auxiliary notions for the statements\<close>

text \<open>
  The net effect of the delete and the insert of one record on the rows of the table,
  and of a whole batch of inserted rows.
\<close>

definition upsert_row :: "stock_row \<Rightarrow> stock_row list \<Rightarrow> stock_row list" where
  "upsert_row x rows = filter (\<lambda>y. row_key y \<noteq> row_key x) rows @ [x]"

definition merge_rows :: "stock_row list \<Rightarrow> stock_row list \<Rightarrow> stock_row list" where
  "merge_rows rows new = fold upsert_row new rows"

text \<open>
  The rows the loop inserts when it starts after \<open>n\<close> calls: record \<open>i\<close> is deleted by call
  \<open>n + 2 i\<close> and inserted by call \<open>n + 2 i + 1\<close>, whose timestamp it gets. A run of the
  writer makes four calls (connect, cursor, two DDL statements) before its loop.
\<close>

fun loop_rows :: "world \<Rightarrow> nat \<Rightarrow> price_record list \<Rightarrow> stock_row list" where
  "loop_rows w n [] = []"
| "loop_rows w n (r # rs) =
     \<lparr>row_values = r, fetched_at = current_timestamp w (Suc n)\<rparr> # loop_rows w (n + 2) rs"

definition written_rows :: "world \<Rightarrow> snowflake \<Rightarrow> price_record list \<Rightarrow> stock_row list" where
  "written_rows w s records = loop_rows w (length (calls s) + 4) records"

definition loop_calls :: "string \<Rightarrow> price_record list \<Rightarrow> db_call list" where
  "loop_calls t records =
     concat (map (\<lambda>r. [Execute (DeleteFrom t (as_of_date r) (symbol r)), Execute (InsertInto t r)]) records)"

text \<open>The calls of a run in which nothing raises.\<close>

definition run_calls :: "config \<Rightarrow> price_record list \<Rightarrow> db_call list" where
  "run_calls cfg records =
     [connect_call cfg, Cursor,
      Execute (CreateSchemaIfNotExists (database cfg @ ''.'' @ schema cfg)),
      Execute (CreateTableIfNotExists (fq_table cfg))] @
     loop_calls (fq_table cfg) records @
     [Commit, CloseCursor, CloseConnection]"

definition unchanged_session :: "snowflake \<Rightarrow> snowflake \<Rightarrow> bool" where
  "unchanged_session s s' \<longleftrightarrow>
     commits s' = commits s \<and> open_connections s' = open_connections s \<and>
     open_cursors s' = open_cursors s"

text \<open>
  An entry of the series whose values all convert: its date string parses, its value is
  an object that has the five fields, the four prices convert to floats and the volume
  converts to an integer.
\<close>

definition field_converts ::
    "(json \<Rightarrow> error + 'a) \<Rightarrow> (string \<times> json) list \<Rightarrow> string \<Rightarrow> bool" where
  "field_converts conv vals k =
     (case map_of vals k of None \<Rightarrow> False | Some v \<Rightarrow> \<not> isl (conv v))"

fun entry_converts :: "pylib \<Rightarrow> string \<times> json \<Rightarrow> bool" where
  "entry_converts lib (date_str, JObj vals) =
     (strptime_ymd lib date_str \<noteq> None \<and>
      field_converts (py_float lib) vals ''1. open'' \<and>
      field_converts (py_float lib) vals ''2. high'' \<and>
      field_converts (py_float lib) vals ''3. low'' \<and>
      field_converts (py_float lib) vals ''4. close'' \<and>
      field_converts (py_int lib) vals ''5. volume'')"
| "entry_converts lib (date_str, _) = False"

section \<open>Sample instances\<close>

text \<open>
  Concrete instances of the parameters, used to run the model on explicit inputs.
  \<open>sample_lib\<close> is a small instance of the library interface. It converts a string of
  ASCII digits to the number it denotes, and a date written as four digits, two digits
  and two digits separated by dashes, when that day exists. Everything else it rejects,
  although Python accepts more (signs, fractions, exponents, single-digit months and
  days, numbers that are not strings). It is applied below only where the two agree;
  the general statements hold for every library.
\<close>

definition digit_value :: "char \<Rightarrow> nat option" where
  "digit_value c =
     (if (48::nat) \<le> of_char c \<and> of_char c \<le> (57::nat) then Some (of_char c - 48) else None)"

fun decimal :: "nat \<Rightarrow> string \<Rightarrow> nat option" where
  "decimal acc [] = Some acc"
| "decimal acc (c # cs) =
     (case digit_value c of None \<Rightarrow> None | Some d \<Rightarrow> decimal (10 * acc + d) cs)"

definition digits_value :: "string \<Rightarrow> nat option" where
  "digits_value s = (if s = [] then None else decimal 0 s)"

definition days_in_month :: "nat \<Rightarrow> nat \<Rightarrow> nat" where
  "days_in_month y m =
     (if m = 2 then (if y mod 4 = 0 \<and> (y mod 100 \<noteq> 0 \<or> y mod 400 = 0) then 29 else 28)
      else if m \<in> {4, 6, 9, 11} then 30 else 31)"

definition sample_strptime :: "string \<Rightarrow> date option" where
  "sample_strptime s =
     (if length s = 10 \<and> s ! 4 = CHR ''-'' \<and> s ! 7 = CHR ''-'' then
        (case (digits_value (take 4 s), digits_value (take 2 (drop 5 s)), digits_value (drop 8 s)) of
           (Some y, Some m, Some d) \<Rightarrow>
             if 1 \<le> y \<and> 1 \<le> m \<and> m \<le> 12 \<and> 1 \<le> d \<and> d \<le> days_in_month y m
             then Some (Date y m d) else None
         | _ \<Rightarrow> None)
      else None)"

fun sample_float :: "json \<Rightarrow> error + pyfloat" where
  "sample_float (JStr s) =
     (case digits_value s of None \<Rightarrow> Inl ValueError | Some n \<Rightarrow> Inr (Finite (of_nat n)))"
| "sample_float _ = Inl TypeError"

fun sample_int :: "json \<Rightarrow> error + int" where
  "sample_int (JStr s) =
     (case digits_value s of None \<Rightarrow> Inl ValueError | Some n \<Rightarrow> Inr (int n))"
| "sample_int _ = Inl TypeError"

definition sample_lib :: pylib where
  "sample_lib = \<lparr>strptime_ymd = sample_strptime, py_float = sample_float, py_int = sample_int\<rparr>"

definition sample_environ :: "string \<rightharpoonup> string" where
  "sample_environ = map_of
     [(''ALPHAVANTAGE_API_KEY'', ''demo''),
      (''SNOWFLAKE_ACCOUNT'', ''acct''),
      (''SNOWFLAKE_USER'', ''etl''),
      (''SNOWFLAKE_PASSWORD'', ''secret''),
      (''SNOWFLAKE_ROLE'', ''LOADER''),
      (''SNOWFLAKE_WH'', ''COMPUTE_WH''),
      (''SNOWFLAKE_DB'', ''DBT_DEMO'')]"

definition sample_config :: config where
  "sample_config =
     \<lparr>account = ''acct'', user = ''etl'', password = ''secret'', role = ''LOADER'',
      warehouse = ''COMPUTE_WH'', database = ''DBT_DEMO'', schema = ''RAW''\<rparr>"

text \<open>
  A world with the sample environment in which the provider answers every request with
  \<open>resp\<close>, the standard output takes every line, the database calls listed in \<open>failing\<close>
  (by their position) raise, and the clock shows \<open>1000 + n\<close> during call \<open>n\<close>.
\<close>

definition world_of :: "response \<Rightarrow> nat list \<Rightarrow> world" where
  "world_of resp failing =
     \<lparr>environ = sample_environ, http_get = (\<lambda>url. Inr resp),
      stdout_raises = (\<lambda>line. None),
      call_fails = (\<lambda>n. n \<in> set failing), current_timestamp = (\<lambda>n. 1000 + n)\<rparr>"

definition ok_json :: "json \<Rightarrow> response" where
  "ok_json body = \<lparr>status_code = 200, json_body = Some body\<rparr>"

definition rate_limited :: response where
  "rate_limited = \<lparr>status_code = 429, json_body = None\<rparr>"

text \<open>
  A world without environment variables in which every request, every print and every
  database call raises.
\<close>

definition hostile_world :: world where
  "hostile_world =
     \<lparr>environ = Map.empty, http_get = (\<lambda>url. Inl RequestException),
      stdout_raises = (\<lambda>line. Some UnicodeEncodeError),
      call_fails = (\<lambda>n. True), current_timestamp = (\<lambda>n. 0)\<rparr>"

definition empty_warehouse :: snowflake where
  "empty_warehouse =
     \<lparr>tables = Map.empty, calls = [], commits = 0, open_connections = 0, open_cursors = 0\<rparr>"

definition entry :: "string \<Rightarrow> string \<Rightarrow> string \<Rightarrow> string \<Rightarrow> string \<Rightarrow> json" where
  "entry a b c d e =
     JObj [(''1. open'', JStr a), (''2. high'', JStr b), (''3. low'', JStr c),
           (''4. close'', JStr d), (''5. volume'', JStr e)]"

definition abc_payload :: json where
  "abc_payload =
     JObj [(''Time Series (Daily)'',
            JObj [(''2024-01-02'', entry ''10'' ''12'' ''9'' ''11'' ''1000'')])]"

definition abc_record :: price_record where
  "abc_record =
     \<lparr>as_of_date = Date 2024 1 2, symbol = ''ABC'', open_price = Finite 10,
      high_price = Finite 12, low_price = Finite 9, close_price = Finite 11, volume = 1000\<rparr>"

text \<open>Records, a batch with a repeated key, and warehouses to run the writer on.\<close>

definition xyz_record :: price_record where
  "xyz_record =
     \<lparr>as_of_date = Date 2024 1 2, symbol = ''XYZ'', open_price = Finite 20,
      high_price = Finite 22, low_price = Finite 19, close_price = Finite 21, volume = 500\<rparr>"

definition abc_revised :: price_record where
  "abc_revised = abc_record\<lparr>close_price := Finite (23 / 2), volume := 1200\<rparr>"

definition sample_batch :: "price_record list" where
  "sample_batch = [abc_record, xyz_record, abc_revised]"

definition sample_table :: string where
  "sample_table = ''DBT_DEMO.RAW.STOCK_PRICES''"

definition stale_warehouse :: snowflake where
  "stale_warehouse =
     \<lparr>tables = [sample_table \<mapsto>
        [\<lparr>row_values = abc_record\<lparr>volume := 1\<rparr>, fetched_at = 1\<rparr>,
         \<lparr>row_values = abc_record\<lparr>volume := 2\<rparr>, fetched_at = 2\<rparr>]],
      calls = [], commits = 0, open_connections = 0, open_cursors = 0\<rparr>"

definition tidy_warehouse :: snowflake where
  "tidy_warehouse =
     \<lparr>tables = [sample_table \<mapsto>
        [\<lparr>row_values = xyz_record\<lparr>volume := 1\<rparr>, fetched_at = 1\<rparr>,
         \<lparr>row_values = abc_record\<lparr>volume := 2\<rparr>, fetched_at = 2\<rparr>]],
      calls = [], commits = 0, open_connections = 0, open_cursors = 0\<rparr>"

definition quiet_world :: world where
  "quiet_world = world_of rate_limited []"

definition first_run :: "snowflake \<times> error option" where
  "first_run = insert_history_into_snowflake quiet_world sample_batch stale_warehouse"

definition second_run :: "snowflake \<times> error option" where
  "second_run = insert_history_into_snowflake quiet_world sample_batch (fst first_run)"

text \<open>A world in which the second database call, the creation of the cursor, raises.\<close>

definition cursor_fails_world :: world where
  "cursor_fails_world = world_of rate_limited [1]"

text \<open>
  A world in which the provider rate-limits and the standard output has an encoding
  without the warning sign (ASCII, say): it refuses the three warning lines.
\<close>

fun has_warning_sign :: "log_event \<Rightarrow> bool" where
  "has_warning_sign (LogMessage m) = False"
| "has_warning_sign line = True"

definition ascii_stdout_world :: world where
  "ascii_stdout_world =
     (world_of rate_limited [])
       \<lparr>stdout_raises :=
          (\<lambda>line. if has_warning_sign line then Some UnicodeEncodeError else None)\<rparr>"

text \<open>Responses and bodies to run the fetcher on.\<close>

definition not_json :: response where
  "not_json = \<lparr>status_code = 200, json_body = None\<rparr>"

definition server_error :: response where
  "server_error = \<lparr>status_code = 500, json_body = None\<rparr>"

definition bad_date_payload :: json where
  "bad_date_payload =
     JObj [(''Time Series (Daily)'',
            JObj [(''01/02/2024'', entry ''10'' ''12'' ''9'' ''11'' ''1000'')])]"

definition non_numeric_payload :: json where
  "non_numeric_payload =
     JObj [(''Time Series (Daily)'',
            JObj [(''2024-01-02'', entry ''n/a'' ''12'' ''9'' ''11'' ''1000'')])]"

definition note_payload :: json where
  "note_payload = JObj [(''Note'', JStr ''Thank you for using Alpha Vantage!'')]"

definition unordered_payload :: json where
  "unordered_payload =
     JObj [(''Meta Data'', JObj [(''2. Symbol'', JStr ''ABC'')]),
           (''Time Series (Daily)'',
            JObj [(''2024-01-03'', entry ''11'' ''13'' ''10'' ''12'' ''900''),
                  (''2023-12-29'', entry ''8'' ''9'' ''7'' ''8'' ''700''),
                  (''2024-01-02'', entry ''10'' ''12'' ''9'' ''11'' ''1000'')])]"

section \<open>Properties of the writer\<close>

subsection \<open>Single calls\<close>

lemma and_then_None: "and_then r f = (s', None) \<Longrightarrow> \<exists>s1. r = (s1, None) \<and> f s1 = (s', None)"
  by (cases "(r, f)" rule: and_then.cases) auto

lemma issue_None:
  "issue w c s = (s', None) \<Longrightarrow>
     \<not> call_fails w (length (calls s)) \<and>
     effect (current_timestamp w (length (calls s))) c (s\<lparr>calls := calls s @ [c]\<rparr>) = Some s'"
  by (auto simp: issue_def Let_def split: if_splits option.splits)

lemma issue_delete:
  assumes "issue w (Execute (DeleteFrom t d sy)) s = (s', None)"
  shows "\<exists>rows. tables s t = Some rows \<and>
           tables s' = (tables s)(t \<mapsto> filter (\<lambda>x. row_key x \<noteq> (d, sy)) rows)"
    and "calls s' = calls s @ [Execute (DeleteFrom t d sy)]"
    and "unchanged_session s s'"
  using issue_None [OF assms]
  by (auto simp: unchanged_session_def split: option.splits)

lemma issue_insert:
  assumes "issue w (Execute (InsertInto t r)) s = (s', None)"
  shows "\<exists>rows. tables s t = Some rows \<and>
           tables s' = (tables s)(t \<mapsto> rows @
             [\<lparr>row_values = r, fetched_at = current_timestamp w (length (calls s))\<rparr>])"
    and "calls s' = calls s @ [Execute (InsertInto t r)]"
    and "unchanged_session s s'"
  using issue_None [OF assms]
  by (auto simp: unchanged_session_def split: option.splits)

lemma upsert_loop_success:
  "upsert_loop w t records s = (s', None) \<Longrightarrow> tables s t = Some rows \<Longrightarrow>
     tables s' = (tables s)(t \<mapsto> merge_rows rows (loop_rows w (length (calls s)) records)) \<and>
     calls s' = calls s @ loop_calls t records \<and> unchanged_session s s'"
proof (induction records arbitrary: s rows)
  case Nil
  then show ?case by (simp add: merge_rows_def loop_calls_def map_upd_triv unchanged_session_def)
next
  case (Cons r records)
  let ?x = "\<lparr>row_values = r, fetched_at = current_timestamp w (Suc (length (calls s)))\<rparr>"
  from Cons.prems(1) obtain s1 s2 where
    d: "issue w (Execute (DeleteFrom t (as_of_date r) (symbol r))) s = (s1, None)" and
    i: "issue w (Execute (InsertInto t r)) s1 = (s2, None)" and
    l: "upsert_loop w t records s2 = (s', None)"
    by (auto dest!: and_then_None)
  from issue_delete [OF d] Cons.prems(2) have
    t1: "tables s1 = (tables s)(t \<mapsto> filter (\<lambda>x. row_key x \<noteq> key_of r) rows)" and
    c1: "calls s1 = calls s @ [Execute (DeleteFrom t (as_of_date r) (symbol r))]" and
    u1: "unchanged_session s s1"
    by (auto simp: key_of_def)
  from issue_insert [OF i] t1 c1 have
    t2: "tables s2 = (tables s)(t \<mapsto> upsert_row ?x rows)" and
    c2: "calls s2 = calls s @ [Execute (DeleteFrom t (as_of_date r) (symbol r)), Execute (InsertInto t r)]" and
    u2: "unchanged_session s1 s2"
    by (auto simp: upsert_row_def row_key_def)
  have "tables s2 t = Some (upsert_row ?x rows)"
    by (simp add: t2)
  from Cons.IH [OF l this] have
    t3: "tables s' = (tables s2)(t \<mapsto> merge_rows (upsert_row ?x rows) (loop_rows w (length (calls s2)) records))" and
    c3: "calls s' = calls s2 @ loop_calls t records" and
    u3: "unchanged_session s2 s'"
    by blast+
  have "tables s' = (tables s)(t \<mapsto> merge_rows rows (loop_rows w (length (calls s)) (r # records)))"
    unfolding t3 t2 c2 by (simp add: merge_rows_def)
  moreover have "calls s' = calls s @ loop_calls t (r # records)"
    unfolding c3 c2 by (simp add: loop_calls_def)
  moreover have "unchanged_session s s'"
    using u1 u2 u3 by (simp add: unchanged_session_def)
  ultimately show ?case by blast
qed


subsection \<open>Merging rows\<close>

lemma merge_rows_snoc: "merge_rows rows (new @ [x]) = upsert_row x (merge_rows rows new)"
  by (simp add: merge_rows_def)

lemma filter_upsert_row:
  "filter (\<lambda>y. row_key y = k) (upsert_row x rows) =
     (if row_key x = k then [x] else filter (\<lambda>y. row_key y = k) rows)"
proof (cases "row_key x = k")
  case True
  then have "filter (\<lambda>y. row_key y = k) (filter (\<lambda>y. row_key y \<noteq> row_key x) rows) = []"
    by (simp add: filter_empty_conv)
  with True show ?thesis by (simp add: upsert_row_def)
next
  case False
  then have "filter (\<lambda>y. row_key y = k) (filter (\<lambda>y. row_key y \<noteq> row_key x) rows) =
             filter (\<lambda>y. row_key y = k) rows"
    by (auto intro: filter_cong)
  with False show ?thesis by (simp add: upsert_row_def)
qed

lemma filter_merge_rows:
  "filter (\<lambda>y. row_key y = k) (merge_rows rows new) =
     (if k \<in> row_key ` set new then [last (filter (\<lambda>y. row_key y = k) new)]
      else filter (\<lambda>y. row_key y = k) rows)"
proof (induction new rule: rev_induct)
  case Nil
  show ?case by (simp add: merge_rows_def)
next
  case (snoc x new)
  show ?case
    unfolding merge_rows_snoc filter_upsert_row using snoc.IH
    by (auto simp: image_iff)
qed

lemma distinct_upsert_row:
  "distinct (map row_key rows) \<Longrightarrow> distinct (map row_key (upsert_row x rows))"
  by (auto simp: upsert_row_def distinct_map_filter)

lemma row_values_loop_rows: "map row_values (loop_rows w n records) = records"
  by (induction records arbitrary: n) simp_all

lemma row_key_loop_rows: "row_key ` set (loop_rows w n records) = key_of ` set records"
proof -
  have "row_key ` set (loop_rows w n records) = key_of ` set (map row_values (loop_rows w n records))"
    by (simp add: image_image row_key_def)
  then show ?thesis by (simp add: row_values_loop_rows)
qed

lemma last_loop_rows:
  assumes "k \<in> key_of ` set records"
  shows "row_values (last (filter (\<lambda>y. row_key y = k) (loop_rows w n records))) =
         last (filter (\<lambda>q. key_of q = k) records)"
proof -
  let ?xs = "loop_rows w n records"
  from assms have "k \<in> row_key ` set ?xs"
    by (simp only: row_key_loop_rows)
  then have ne: "filter (\<lambda>y. row_key y = k) ?xs \<noteq> []"
    by (auto simp: filter_empty_conv)
  have "map row_values (filter (\<lambda>y. row_key y = k) ?xs) =
        filter (\<lambda>q. key_of q = k) (map row_values ?xs)"
    by (simp add: filter_map comp_def row_key_def)
  then have "last (filter (\<lambda>q. key_of q = k) records) =
             last (map row_values (filter (\<lambda>y. row_key y = k) ?xs))"
    by (simp add: row_values_loop_rows)
  also have "\<dots> = row_values (last (filter (\<lambda>y. row_key y = k) ?xs))"
    using ne by (rule last_map)
  finally show ?thesis by simp
qed


subsection \<open>A run without exception\<close>

lemma effect_calls: "effect now c s = Some s' \<Longrightarrow> calls s' = calls s"
  by (rule effect.cases [of "(now, c, s)"]) (auto split: option.splits)

lemma issue_calls: "issue w c s = (s', r) \<Longrightarrow> calls s' = calls s @ [c]"
  by (auto simp: issue_def Let_def split: if_splits option.splits dest!: effect_calls)

lemma issue_connect:
  assumes "issue w (Connect a u p r wh db sc) s = (s', None)"
  shows "tables s' = tables s" and "commits s' = commits s"
    and "open_connections s' = Suc (open_connections s)" and "open_cursors s' = open_cursors s"
  using issue_None [OF assms] by auto

lemma issue_cursor:
  assumes "issue w Cursor s = (s', None)"
  shows "tables s' = tables s" and "commits s' = commits s"
    and "open_connections s' = open_connections s" and "open_cursors s' = Suc (open_cursors s)"
  using issue_None [OF assms] by auto

lemma issue_create_schema:
  assumes "issue w (Execute (CreateSchemaIfNotExists n)) s = (s', None)"
  shows "tables s' = tables s" and "unchanged_session s s'"
  using issue_None [OF assms] by (auto simp: unchanged_session_def)

lemma issue_create_table:
  assumes "issue w (Execute (CreateTableIfNotExists t)) s = (s', None)"
  shows "tables s' = (tables s)(t \<mapsto> table_rows s t)" and "unchanged_session s s'"
  using issue_None [OF assms]
  by (auto simp: unchanged_session_def table_rows_def map_upd_triv split: option.splits)

lemma issue_commit:
  assumes "issue w Commit s = (s', None)"
  shows "tables s' = tables s" and "commits s' = Suc (commits s)"
    and "open_connections s' = open_connections s" and "open_cursors s' = open_cursors s"
  using issue_None [OF assms] by auto

lemma issue_close_cursor:
  assumes "issue w CloseCursor s = (s', None)"
  shows "tables s' = tables s" and "commits s' = commits s"
    and "open_connections s' = open_connections s" and "open_cursors s' = open_cursors s - 1"
  using issue_None [OF assms] by auto

lemma issue_close_connection:
  assumes "issue w CloseConnection s = (s', None)"
  shows "tables s' = tables s" and "commits s' = commits s"
    and "open_connections s' = open_connections s - 1" and "open_cursors s' = open_cursors s"
  using issue_None [OF assms] by auto

lemma provision_and_write_success:
  assumes "provision_and_write w cfg records s = (s', None)"
  shows "tables s' = (tables s)(fq_table cfg \<mapsto>
           merge_rows (table_rows s (fq_table cfg)) (loop_rows w (length (calls s) + 2) records))"
    and "calls s' = calls s @
           [Execute (CreateSchemaIfNotExists (database cfg @ ''.'' @ schema cfg)),
            Execute (CreateTableIfNotExists (fq_table cfg))] @
           loop_calls (fq_table cfg) records @ [Commit]"
    and "commits s' = Suc (commits s)"
    and "open_connections s' = open_connections s" and "open_cursors s' = open_cursors s"
proof -
  let ?t = "fq_table cfg"
  from assms obtain s1 s2 s3 where
    a: "issue w (Execute (CreateSchemaIfNotExists (database cfg @ ''.'' @ schema cfg))) s = (s1, None)" and
    b: "issue w (Execute (CreateTableIfNotExists ?t)) s1 = (s2, None)" and
    c: "upsert_loop w ?t records s2 = (s3, None)" and
    d: "issue w Commit s3 = (s', None)"
    unfolding provision_and_write_def by (auto dest!: and_then_None)
  note a' = issue_create_schema [OF a] issue_calls [OF a]
  note b' = issue_create_table [OF b] issue_calls [OF b]
  have t2: "tables s2 = (tables s)(?t \<mapsto> table_rows s ?t)"
    using a'(1) b'(1) by (simp add: table_rows_def)
  then have "tables s2 ?t = Some (table_rows s ?t)" by simp
  note c' = upsert_loop_success [OF c this]
  note d' = issue_commit [OF d] issue_calls [OF d]
  have len: "length (calls s2) = length (calls s) + 2"
    using a'(3) b'(3) by simp
  show "tables s' = (tables s)(?t \<mapsto>
           merge_rows (table_rows s ?t) (loop_rows w (length (calls s) + 2) records))"
    using c' d'(1) by (simp add: t2 len)
  show "calls s' = calls s @
           [Execute (CreateSchemaIfNotExists (database cfg @ ''.'' @ schema cfg)),
            Execute (CreateTableIfNotExists ?t)] @
           loop_calls ?t records @ [Commit]"
    using a'(3) b'(3) c' d'(5) by simp
  show "commits s' = Suc (commits s)"
    and "open_connections s' = open_connections s" and "open_cursors s' = open_cursors s"
    using a'(2) b'(2) c' d' by (simp_all add: unchanged_session_def)
qed

lemma run_success:
  assumes "insert_history_into_snowflake w records s = (s', None)" and "records \<noteq> []"
  obtains cfg where "read_config w = Inr cfg"
    and "tables s' = (tables s)(fq_table cfg \<mapsto>
           merge_rows (table_rows s (fq_table cfg)) (written_rows w s records))"
    and "calls s' = calls s @ run_calls cfg records"
    and "commits s' = Suc (commits s)"
    and "open_connections s' = open_connections s" and "open_cursors s' = open_cursors s"
proof -
  from assms obtain cfg where cfg: "read_config w = Inr cfg"
    by (auto simp: insert_history_into_snowflake_def split: sum.splits)
  from assms cfg obtain s1 s2 s3 e s4 where
    a: "issue w (connect_call cfg) s = (s1, None)" and
    b: "issue w Cursor s1 = (s2, None)" and
    c: "provision_and_write w cfg records s2 = (s3, e)" and
    d: "issue w CloseCursor s3 = (s4, None)" and
    f: "issue w CloseConnection s4 = (s', None)" and
    e: "e = None"
    by (auto simp: insert_history_into_snowflake_def split: prod.splits option.splits
          dest!: and_then_None)
  note a' = issue_connect [OF a [unfolded connect_call_def]] issue_calls [OF a]
  note b' = issue_cursor [OF b] issue_calls [OF b]
  note c' = provision_and_write_success [OF c [unfolded e]]
  note d' = issue_close_cursor [OF d] issue_calls [OF d]
  note f' = issue_close_connection [OF f] issue_calls [OF f]
  have len: "length (calls s2) = length (calls s) + 2"
    using a'(5) b'(5) by simp
  have "tables s' = (tables s)(fq_table cfg \<mapsto>
           merge_rows (table_rows s (fq_table cfg)) (written_rows w s records))"
    using a'(1) b'(1) c'(1) d'(1) f'(1)
    by (simp add: len written_rows_def table_rows_def eval_nat_numeral)
  moreover have "calls s' = calls s @ run_calls cfg records"
    using a'(5) b'(5) c'(2) d'(5) f'(5) by (simp add: run_calls_def)
  moreover have "commits s' = Suc (commits s)"
    using a'(2) b'(2) c'(3) d'(2) f'(2) by simp
  moreover have "open_connections s' = open_connections s"
    using a'(3) b'(3) c'(4) d'(3) f'(3) by simp
  moreover have "open_cursors s' = open_cursors s"
    using a'(4) b'(4) c'(5) d'(4) f'(4) by simp
  ultimately show thesis using cfg that by blast
qed

subsection \<open>Unique keys, whatever the outcome\<close>

lemma effect_distinct:
  assumes "effect now c s = Some s'" and "\<And>t r. c \<noteq> Execute (InsertInto t r)"
    and "distinct (map row_key (table_rows s u))"
  shows "distinct (map row_key (table_rows s' u))"
  using assms
  by (cases "(now, c, s)" rule: effect.cases)
     (auto simp: table_rows_def distinct_map_filter split: option.splits if_splits)

lemma issue_failed:
  assumes "issue w c s = (s', Some e)"
  shows "tables s' = tables s" and "unchanged_session s s'" and "e = DatabaseError"
  using assms by (auto simp: issue_def Let_def unchanged_session_def split: if_splits option.splits)

lemma issue_distinct:
  assumes "issue w c s = (s', q)" and "\<And>t r. c \<noteq> Execute (InsertInto t r)"
    and "distinct (map row_key (table_rows s u))"
  shows "distinct (map row_key (table_rows s' u))"
proof (cases q)
  case None
  with assms(1) have "issue w c s = (s', None)" by simp
  from issue_None [OF this]
  have "effect (current_timestamp w (length (calls s))) c (s\<lparr>calls := calls s @ [c]\<rparr>) = Some s'"
    by blast
  moreover have "distinct (map row_key (table_rows (s\<lparr>calls := calls s @ [c]\<rparr>) u))"
    using assms(3) by (simp add: table_rows_def)
  ultimately show ?thesis using assms(2) by (blast intro: effect_distinct)
next
  case (Some e)
  with assms(1) have "issue w c s = (s', Some e)" by simp
  then have "tables s' = tables s" by (rule issue_failed)
  with assms(3) show ?thesis by (simp add: table_rows_def)
qed

lemma upsert_step_distinct:
  assumes "and_then (issue w (Execute (DeleteFrom t (as_of_date r) (symbol r))) s)
             (issue w (Execute (InsertInto t r))) = (s', q)"
    and "distinct (map row_key (table_rows s u))"
  shows "distinct (map row_key (table_rows s' u))"
proof -
  obtain s1 q1 where d: "issue w (Execute (DeleteFrom t (as_of_date r) (symbol r))) s = (s1, q1)"
    by (cases "issue w (Execute (DeleteFrom t (as_of_date r) (symbol r))) s")
  have d1: "distinct (map row_key (table_rows s1 u))"
    using d _ assms(2) by (rule issue_distinct) simp
  show ?thesis
  proof (cases q1)
    case (Some e)
    with assms(1) d have "s' = s1" by (simp add: and_then.simps)
    with d1 show ?thesis by simp
  next
    case None
    with assms(1) d have i: "issue w (Execute (InsertInto t r)) s1 = (s', q)"
      by (simp add: and_then.simps)
    from d None obtain rows where
      t1: "tables s1 = (tables s)(t \<mapsto> filter (\<lambda>x. row_key x \<noteq> key_of r) rows)"
      and t0: "tables s t = Some rows"
      by (auto dest!: issue_delete(1) simp: key_of_def)
    show ?thesis
    proof (cases q)
      case (Some e)
      with i have "issue w (Execute (InsertInto t r)) s1 = (s', Some e)" by simp
      then have "tables s' = tables s1" by (rule issue_failed)
      with d1 show ?thesis by (simp add: table_rows_def)
    next
      case None
      define x where "x = \<lparr>row_values = r, fetched_at = current_timestamp w (length (calls s1))\<rparr>"
      from i None t1 have
        t2: "tables s' = (tables s)(t \<mapsto> upsert_row x rows)"
        by (auto dest!: issue_insert(1) simp: upsert_row_def row_key_def x_def)
      show ?thesis
      proof (cases "u = t")
        case True
        with assms(2) t0 have "distinct (map row_key rows)" by (simp add: table_rows_def)
        then have "distinct (map row_key (upsert_row x rows))" by (rule distinct_upsert_row)
        with True t2 show ?thesis by (simp add: table_rows_def)
      next
        case False
        with t2 assms(2) show ?thesis by (simp add: table_rows_def)
      qed
    qed
  qed
qed

lemma and_then_invariant:
  assumes "and_then r f = (s', q)" and "P (fst r)"
    and "\<And>s1 s2 q2. P s1 \<Longrightarrow> f s1 = (s2, q2) \<Longrightarrow> P s2"
  shows "P s'"
  using assms by (cases "(r, f)" rule: and_then.cases) auto

lemma and_then_assoc: "and_then (and_then r f) g = and_then r (\<lambda>s. and_then (f s) g)"
  by (cases "(r, f)" rule: and_then.cases) auto

lemma upsert_loop_distinct:
  "upsert_loop w t records s = (s', q) \<Longrightarrow> distinct (map row_key (table_rows s u)) \<Longrightarrow>
     distinct (map row_key (table_rows s' u))"
proof (induction records arbitrary: s)
  case Nil
  then show ?case by simp
next
  case (Cons r records)
  let ?step = "and_then (issue w (Execute (DeleteFrom t (as_of_date r) (symbol r))) s)
                 (issue w (Execute (InsertInto t r)))"
  have "upsert_loop w t (r # records) s = and_then ?step (upsert_loop w t records)"
    by (simp add: and_then_assoc)
  with Cons.prems(1) have eq: "and_then ?step (upsert_loop w t records) = (s', q)"
    by (simp only:)
  obtain s1 q1 where st: "?step = (s1, q1)" by (cases ?step)
  then have d1: "distinct (map row_key (table_rows s1 u))"
    using Cons.prems(2) by (rule upsert_step_distinct)
  show ?case
  proof (cases q1)
    case None
    with eq [unfolded st] have "upsert_loop w t records s1 = (s', q)"
      by (simp only: and_then.simps)
    then show ?thesis using d1 by (rule Cons.IH)
  next
    case (Some e)
    with eq [unfolded st] have "s' = s1" by (simp add: and_then.simps)
    with d1 show ?thesis by simp
  qed
qed


lemma provision_and_write_distinct:
  assumes "provision_and_write w cfg records s = (s', q)"
    and "distinct (map row_key (table_rows s u))"
  shows "distinct (map row_key (table_rows s' u))"
  using assms(1) unfolding provision_and_write_def
  apply (rule and_then_invariant [where P = "\<lambda>s. distinct (map row_key (table_rows s u))"])
   apply (rule issue_distinct [OF surjective_pairing _ assms(2)], simp)
  apply (erule and_then_invariant [where P = "\<lambda>s. distinct (map row_key (table_rows s u))"])
   apply (rule issue_distinct [OF surjective_pairing], simp, assumption)
  apply (erule and_then_invariant [where P = "\<lambda>s. distinct (map row_key (table_rows s u))"])
   apply (rule upsert_loop_distinct [OF surjective_pairing], assumption)
  apply (erule issue_distinct, simp, assumption)
  done

lemma run_distinct:
  assumes "insert_history_into_snowflake w records s = (s', q)"
    and "distinct (map row_key (table_rows s u))"
  shows "distinct (map row_key (table_rows s' u))"
proof (cases "records = []")
  case True
  with assms show ?thesis by (simp add: insert_history_into_snowflake_def)
next
  case False
  show ?thesis
  proof (cases "read_config w")
    case (Inl e)
    with assms False show ?thesis by (simp add: insert_history_into_snowflake_def)
  next
    case (Inr cfg)
    let ?P = "\<lambda>s. distinct (map row_key (table_rows s u))"
    from assms(1) False Inr have
      "and_then (issue w (connect_call cfg) s) (\<lambda>s.
         (case issue w Cursor s of
            (s, Some e) \<Rightarrow> (s, Some (UnboundLocalError ''cs''))
          | (s, None) \<Rightarrow>
              (case provision_and_write w cfg records s of
                 (s, body_exc) \<Rightarrow>
                   and_then (issue w CloseCursor s) (\<lambda>s.
                   and_then (issue w CloseConnection s) (\<lambda>s.
                   (s, body_exc)))))) = (s', q)"
      by (simp add: insert_history_into_snowflake_def)
    then show ?thesis
    proof (rule and_then_invariant [where P = ?P])
      show "?P (fst (issue w (connect_call cfg) s))"
        by (rule issue_distinct [OF surjective_pairing _ assms(2)]) (simp add: connect_call_def)
    next
      fix s1 s2 q2
      assume p1: "?P s1" and
        r: "(case issue w Cursor s1 of
            (s, Some e) \<Rightarrow> (s, Some (UnboundLocalError ''cs''))
          | (s, None) \<Rightarrow>
              (case provision_and_write w cfg records s of
                 (s, body_exc) \<Rightarrow>
                   and_then (issue w CloseCursor s) (\<lambda>s.
                   and_then (issue w CloseConnection s) (\<lambda>s.
                   (s, body_exc))))) = (s2, q2)"
      obtain sc qc where c: "issue w Cursor s1 = (sc, qc)" by (cases "issue w Cursor s1")
      have pc: "?P sc" using c _ p1 by (rule issue_distinct) simp
      show "?P s2"
      proof (cases qc)
        case (Some e)
        with r c have "s2 = sc" by simp
        with pc show ?thesis by simp
      next
        case None
        obtain sb qb where b: "provision_and_write w cfg records sc = (sb, qb)"
          by (cases "provision_and_write w cfg records sc")
        have pb: "?P sb" using b pc by (rule provision_and_write_distinct)
        from r c None b have
          "and_then (issue w CloseCursor sb) (\<lambda>s.
             and_then (issue w CloseConnection s) (\<lambda>s. (s, qb))) = (s2, q2)"
          by simp
        then show ?thesis
        proof (rule and_then_invariant [where P = ?P])
          show "?P (fst (issue w CloseCursor sb))"
            by (rule issue_distinct [OF surjective_pairing _ pb]) simp
        next
          fix t1 t2 q3
          assume "?P t1" and "and_then (issue w CloseConnection t1) (\<lambda>s. (s, qb)) = (t2, q3)"
          from this(2) show "?P t2"
          proof (rule and_then_invariant [where P = ?P])
            show "?P (fst (issue w CloseConnection t1))"
              by (rule issue_distinct [OF surjective_pairing _ \<open>?P t1\<close>]) simp
          qed simp
        qed
      qed
    qed
  qed
qed

subsection \<open>Exceptions in the body; runs in which no call raises\<close>

lemma unchanged_session_refl: "unchanged_session s s"
  by (simp add: unchanged_session_def)

lemma unchanged_session_trans:
  "unchanged_session s s1 \<Longrightarrow> unchanged_session s1 s2 \<Longrightarrow> unchanged_session s s2"
  by (simp add: unchanged_session_def)

lemma issue_execute_session: "issue w (Execute st) s = (s', q) \<Longrightarrow> unchanged_session s s'"
  by (cases st)
     (auto simp: issue_def Let_def unchanged_session_def split: if_splits option.splits)

lemma upsert_loop_session: "upsert_loop w t records s = (s', q) \<Longrightarrow> unchanged_session s s'"
proof (induction records arbitrary: s s' q)
  case Nil
  then show ?case by (simp add: unchanged_session_refl)
next
  case (Cons r records)
  from Cons.prems show ?case
    unfolding upsert_loop.simps
  proof (rule and_then_invariant [where P = "unchanged_session s"])
    show "unchanged_session s (fst (issue w (Execute (DeleteFrom t (as_of_date r) (symbol r))) s))"
      by (rule issue_execute_session [OF surjective_pairing])
  next
    fix s1 s2 q2
    assume a: "unchanged_session s s1"
      and "and_then (issue w (Execute (InsertInto t r)) s1) (upsert_loop w t records) = (s2, q2)"
    from this(2) show "unchanged_session s s2"
    proof (rule and_then_invariant [where P = "unchanged_session s"])
      show "unchanged_session s (fst (issue w (Execute (InsertInto t r)) s1))"
        using a issue_execute_session [OF surjective_pairing] by (rule unchanged_session_trans)
    next
      fix s3 s4 q4
      assume "unchanged_session s s3" and "upsert_loop w t records s3 = (s4, q4)"
      then show "unchanged_session s s4"
        by (blast intro: unchanged_session_trans Cons.IH)
    qed
  qed
qed

lemma provision_and_write_failed:
  assumes "provision_and_write w cfg records s = (s', Some e)"
  shows "unchanged_session s s'"
proof -
  let ?a = "issue w (Execute (CreateSchemaIfNotExists (database cfg @ ''.'' @ schema cfg))) s"
  obtain s1 q1 where a: "?a = (s1, q1)" by (cases ?a)
  then have u1: "unchanged_session s s1" by (rule issue_execute_session)
  show ?thesis
  proof (cases q1)
    case (Some e1)
    with assms a have "s' = s1" by (simp add: provision_and_write_def)
    with u1 show ?thesis by simp
  next
    case None
    let ?b = "issue w (Execute (CreateTableIfNotExists (fq_table cfg))) s1"
    obtain s2 q2 where b: "?b = (s2, q2)" by (cases ?b)
    then have "unchanged_session s1 s2" by (rule issue_execute_session)
    with u1 have u2: "unchanged_session s s2" by (rule unchanged_session_trans)
    show ?thesis
    proof (cases q2)
      case (Some e2)
      with assms a None b have "s' = s2" by (simp add: provision_and_write_def)
      with u2 show ?thesis by simp
    next
      case n2: None
      let ?c = "upsert_loop w (fq_table cfg) records s2"
      obtain s3 q3 where c: "?c = (s3, q3)" by (cases ?c)
      then have "unchanged_session s2 s3" by (rule upsert_loop_session)
      with u2 have u3: "unchanged_session s s3" by (rule unchanged_session_trans)
      show ?thesis
      proof (cases q3)
        case (Some e3)
        with assms a None b n2 c have "s' = s3" by (simp add: provision_and_write_def)
        with u3 show ?thesis by simp
      next
        case n3: None
        with assms a None b n2 c have "issue w Commit s3 = (s', Some e)"
          by (simp add: provision_and_write_def)
        then have "unchanged_session s3 s'" by (rule issue_failed)
        with u3 show ?thesis by (rule unchanged_session_trans)
      qed
    qed
  qed
qed

text \<open>
  The part of the discipline that holds: once the cursor exists, an exception in the
  provisioning, the loop or the commit leaves the commit count as it was, travels on to
  the caller, and both the cursor and the connection are closed (the closes themselves
  not raising).
\<close>

lemma body_failure_releases:
  assumes "records \<noteq> []" and "read_config w = Inr cfg"
    and "issue w (connect_call cfg) s = (s1, None)"
    and "issue w Cursor s1 = (s2, None)"
    and "provision_and_write w cfg records s2 = (s3, Some e)"
    and "\<not> call_fails w (length (calls s3))"
    and "\<not> call_fails w (Suc (length (calls s3)))"
  shows "snd (insert_history_into_snowflake w records s) = Some e \<and>
         commits (fst (insert_history_into_snowflake w records s)) = commits s \<and>
         open_connections (fst (insert_history_into_snowflake w records s)) = open_connections s \<and>
         open_cursors (fst (insert_history_into_snowflake w records s)) = open_cursors s \<and>
         calls (fst (insert_history_into_snowflake w records s)) = calls s3 @ [CloseCursor, CloseConnection]"
proof -
  obtain s4 where d: "issue w CloseCursor s3 = (s4, None)"
    and s4: "calls s4 = calls s3 @ [CloseCursor]" "commits s4 = commits s3"
      "open_cursors s4 = open_cursors s3 - 1" "open_connections s4 = open_connections s3"
    using assms(6) by (simp add: issue_def)
  obtain s5 where f: "issue w CloseConnection s4 = (s5, None)"
    and s5: "calls s5 = calls s4 @ [CloseConnection]" "commits s5 = commits s4"
      "open_cursors s5 = open_cursors s4" "open_connections s5 = open_connections s4 - 1"
    using assms(7) s4(1) by (simp add: issue_def)
  have run: "insert_history_into_snowflake w records s = (s5, Some e)"
    using assms(1,2) by (simp add: insert_history_into_snowflake_def assms(3,4,5) d f)
  note a = issue_connect [OF assms(3) [unfolded connect_call_def]]
  note b = issue_cursor [OF assms(4)]
  from provision_and_write_failed [OF assms(5)] have c: "unchanged_session s2 s3" .
  show ?thesis
    unfolding run using a b c s4 s5 by (simp add: unchanged_session_def)
qed

lemma upsert_loop_returns:
  assumes "\<forall>n. \<not> call_fails w n"
  shows "tables s t \<noteq> None \<Longrightarrow> snd (upsert_loop w t records s) = None"
proof (induction records arbitrary: s)
  case Nil
  show ?case by simp
next
  case (Cons r records)
  from Cons.prems obtain rows where rows: "tables s t = Some rows" by auto
  let ?d = "Execute (DeleteFrom t (as_of_date r) (symbol r))"
  let ?s1 = "s\<lparr>calls := calls s @ [?d],
               tables := (tables s)(t \<mapsto> filter (\<lambda>x. row_key x \<noteq> (as_of_date r, symbol r)) rows)\<rparr>"
  have d: "issue w ?d s = (?s1, None)"
    using assms rows by (simp add: issue_def)
  obtain s2 where i: "issue w (Execute (InsertInto t r)) ?s1 = (s2, None)" and t2: "tables s2 t \<noteq> None"
    using assms by (simp add: issue_def)
  from Cons.IH [OF t2] show ?case
    by (simp add: d i)
qed

lemma run_returns:
  assumes "read_config w = Inr cfg" and "\<forall>n. \<not> call_fails w n"
  shows "snd (insert_history_into_snowflake w records s) = None"
proof (cases "records = []")
  case True
  then show ?thesis by (simp add: insert_history_into_snowflake_def)
next
  case False
  obtain s1 where a: "issue w (connect_call cfg) s = (s1, None)"
    using assms(2) by (simp add: issue_def connect_call_def)
  obtain s2 where b: "issue w Cursor s1 = (s2, None)"
    using assms(2) by (simp add: issue_def)
  obtain s3 where c: "issue w (Execute (CreateSchemaIfNotExists (database cfg @ ''.'' @ schema cfg))) s2 = (s3, None)"
    using assms(2) by (simp add: issue_def)
  obtain s4 where d: "issue w (Execute (CreateTableIfNotExists (fq_table cfg))) s3 = (s4, None)"
    and t4: "tables s4 (fq_table cfg) \<noteq> None"
    using assms(2) by (cases "tables s3 (fq_table cfg)") (auto simp: issue_def Let_def)
  obtain s5 where e: "upsert_loop w (fq_table cfg) records s4 = (s5, None)"
    using upsert_loop_returns [OF assms(2) t4, of records]
    by (cases "upsert_loop w (fq_table cfg) records s4") auto
  obtain s6 where f: "issue w Commit s5 = (s6, None)"
    using assms(2) by (simp add: issue_def)
  obtain s7 where g: "issue w CloseCursor s6 = (s7, None)"
    using assms(2) by (simp add: issue_def)
  obtain s8 where h: "issue w CloseConnection s7 = (s8, None)"
    using assms(2) by (simp add: issue_def)
  have "provision_and_write w cfg records s2 = (s6, None)"
    by (simp only: provision_and_write_def c d e f and_then.simps)
  then show ?thesis
    using False assms(1)
    by (simp add: insert_history_into_snowflake_def a b g h)
qed

subsection \<open>The table after a run that returns\<close>

lemma run_outcome: "snd r = None \<Longrightarrow> r = (fst r, None)"
  by (cases r) simp

lemma filter_key_absent: "k \<notin> f ` set xs \<Longrightarrow> filter (\<lambda>y. f y = k) xs = []"
  by (induction xs) auto

lemma loop_rows_append:
  "loop_rows w n (xs @ ys) = loop_rows w n xs @ loop_rows w (n + 2 * length xs) ys"
  by (induction xs arbitrary: n) simp_all

lemma run_table_rows:
  assumes "insert_history_into_snowflake w records s = (s', None)" and "records \<noteq> []"
    and "read_config w = Inr cfg"
  shows "table_rows s' (fq_table cfg) =
           merge_rows (table_rows s (fq_table cfg)) (written_rows w s records)"
proof -
  from assms(1,2) obtain cfg' where "read_config w = Inr cfg'" and
    "tables s' = (tables s)(fq_table cfg' \<mapsto>
        merge_rows (table_rows s (fq_table cfg')) (written_rows w s records))"
    by (rule run_success)
  with assms(3) show ?thesis by (simp add: table_rows_def)
qed

section \<open>Claims about the writer\<close>

text \<open>
  Claim C8. For the empty record sequence the writer returns at once: the state of the
  warehouse is unchanged, so no connection is opened, no call (DDL, DML or other) is
  issued and no table changes; it does not even read its configuration, so this holds
  in every world.
\<close>

theorem upsert_empty_noop: "insert_history_into_snowflake w [] s = (s, None)"
  by (simp add: insert_history_into_snowflake_def)

theorem upsert_empty_noop_witness:
  "insert_history_into_snowflake hostile_world [] empty_warehouse = (empty_warehouse, None)"
  by (rule upsert_empty_noop)

text \<open>
  Claim C3. Upserting the same record list twice, from any starting state: after the
  second application the table holds, for every key of the list, exactly one row; it is
  a row inserted by the second application (the last one it inserted for that key), and
  its values are those of the last record with that key in the list. The same holds
  after the first application, with the rows that one inserted.
\<close>

theorem upsert_twice_one_row_per_key:
  assumes "insert_history_into_snowflake w records s0 = (s1, None)"
    and "insert_history_into_snowflake w records s1 = (s2, None)"
    and "read_config w = Inr cfg"
    and "k \<in> key_of ` set records"
  shows "filter (\<lambda>y. row_key y = k) (table_rows s1 (fq_table cfg)) =
           [last (filter (\<lambda>y. row_key y = k) (written_rows w s0 records))] \<and>
         filter (\<lambda>y. row_key y = k) (table_rows s2 (fq_table cfg)) =
           [last (filter (\<lambda>y. row_key y = k) (written_rows w s1 records))] \<and>
         row_values (last (filter (\<lambda>y. row_key y = k) (written_rows w s1 records))) =
           last (filter (\<lambda>q. key_of q = k) records)"
proof -
  from assms(4) have ne: "records \<noteq> []" by auto
  have one: "filter (\<lambda>y. row_key y = k) (table_rows s' (fq_table cfg)) =
               [last (filter (\<lambda>y. row_key y = k) (written_rows w s records))]"
    if run: "insert_history_into_snowflake w records s = (s', None)" for s s'
  proof -
    from run ne obtain cfg' where "read_config w = Inr cfg'" and
      t: "tables s' = (tables s)(fq_table cfg' \<mapsto>
            merge_rows (table_rows s (fq_table cfg')) (written_rows w s records))"
      by (rule run_success)
    with assms(3) have "table_rows s' (fq_table cfg) =
        merge_rows (table_rows s (fq_table cfg)) (written_rows w s records)"
      by (simp add: table_rows_def)
    moreover from assms(4) have "k \<in> row_key ` set (written_rows w s records)"
      by (simp only: written_rows_def row_key_loop_rows)
    ultimately show ?thesis by (simp add: filter_merge_rows)
  qed
  from assms(4) have "row_values (last (filter (\<lambda>y. row_key y = k) (written_rows w s1 records))) =
      last (filter (\<lambda>q. key_of q = k) records)"
    unfolding written_rows_def by (rule last_loop_rows)
  with one [OF assms(1)] one [OF assms(2)] show ?thesis by blast
qed

theorem upsert_twice_one_row_per_key_witness:
  "snd first_run = None \<and> snd second_run = None \<and>
   read_config quiet_world = Inr sample_config \<and>
   key_of abc_record \<in> key_of ` set sample_batch \<and>
   filter (\<lambda>y. row_key y = key_of abc_record) (table_rows (fst first_run) (fq_table sample_config)) =
     [\<lparr>row_values = abc_revised, fetched_at = 1009\<rparr>] \<and>
   filter (\<lambda>y. row_key y = key_of abc_record) (table_rows (fst second_run) (fq_table sample_config)) =
     [\<lparr>row_values = abc_revised, fetched_at = 1022\<rparr>]"
proof -
  have cfg: "read_config quiet_world = Inr sample_config" by code_simp
  have quiet: "\<forall>n. \<not> call_fails quiet_world n"
    by (simp add: quiet_world_def world_of_def)
  have r1: "snd first_run = None"
    unfolding first_run_def using cfg quiet by (rule run_returns)
  have r2: "snd second_run = None"
    unfolding second_run_def using cfg quiet by (rule run_returns)
  have mem: "key_of abc_record \<in> key_of ` set sample_batch" by code_simp
  have w1: "last (filter (\<lambda>y. row_key y = key_of abc_record)
              (written_rows quiet_world stale_warehouse sample_batch)) =
            \<lparr>row_values = abc_revised, fetched_at = 1009\<rparr>" by code_simp
  have w2: "last (filter (\<lambda>y. row_key y = key_of abc_record)
              (written_rows quiet_world (fst first_run) sample_batch)) =
            \<lparr>row_values = abc_revised, fetched_at = 1022\<rparr>" by code_simp
  have h1: "insert_history_into_snowflake quiet_world sample_batch stale_warehouse = (fst first_run, None)"
    using run_outcome [OF r1] by (simp only: first_run_def)
  have h2: "insert_history_into_snowflake quiet_world sample_batch (fst first_run) = (fst second_run, None)"
    using run_outcome [OF r2] by (simp only: second_run_def)
  from upsert_twice_one_row_per_key [OF h1 h2 cfg mem] r1 r2 cfg mem show ?thesis
    by (simp only: w1 w2 simp_thms)
qed

text \<open>
  Claim C10. One call on a list that holds several records with the same key: when \<open>r\<close>
  is the last record of its key in the list (records before it may share the key), the
  table ends with exactly one row for that key, holding the values of \<open>r\<close> and the
  timestamp of the insert of \<open>r\<close>.
\<close>

theorem upsert_last_duplicate_wins:
  assumes "insert_history_into_snowflake w records s = (s', None)"
    and "read_config w = Inr cfg"
    and "records = xs @ r # ys"
    and "\<forall>q\<in>set ys. key_of q \<noteq> key_of r"
  shows "filter (\<lambda>y. row_key y = key_of r) (table_rows s' (fq_table cfg)) =
           [\<lparr>row_values = r, fetched_at = current_timestamp w (length (calls s) + 5 + 2 * length xs)\<rparr>]"
proof -
  let ?n = "length (calls s) + 4"
  let ?x = "\<lparr>row_values = r, fetched_at = current_timestamp w (length (calls s) + 5 + 2 * length xs)\<rparr>"
  let ?P = "\<lambda>y. row_key y = key_of r"
  from assms(3) have ne: "records \<noteq> []" by simp
  have split: "written_rows w s records =
      loop_rows w ?n xs @ ?x # loop_rows w (?n + 2 * length xs + 2) ys"
    by (simp add: written_rows_def assms(3) loop_rows_append algebra_simps)
  have "key_of r \<notin> key_of ` set ys"
    using assms(4) by auto
  then have "key_of r \<notin> row_key ` set (loop_rows w (?n + 2 * length xs + 2) ys)"
    unfolding row_key_loop_rows .
  then have tail: "filter ?P (loop_rows w (?n + 2 * length xs + 2) ys) = []"
    by (rule filter_key_absent)
  have "?P ?x" by (simp add: row_key_def)
  with tail have l: "last (filter ?P (written_rows w s records)) = ?x"
    unfolding split by simp
  from \<open>?P ?x\<close> have "key_of r \<in> row_key ` set (written_rows w s records)"
    unfolding split by (auto simp: image_iff)
  with run_table_rows [OF assms(1) ne assms(2)] l show ?thesis
    by (simp add: filter_merge_rows)
qed

theorem upsert_last_duplicate_wins_witness:
  "snd (insert_history_into_snowflake quiet_world sample_batch stale_warehouse) = None \<and>
   read_config quiet_world = Inr sample_config \<and>
   sample_batch = [abc_record, xyz_record] @ abc_revised # [] \<and>
   key_of abc_revised = key_of abc_record \<and>
   filter (\<lambda>y. row_key y = key_of abc_revised)
     (table_rows (fst (insert_history_into_snowflake quiet_world sample_batch stale_warehouse))
        (fq_table sample_config)) =
     [\<lparr>row_values = abc_revised, fetched_at = 1009\<rparr>]"
proof -
  let ?run = "insert_history_into_snowflake quiet_world sample_batch stale_warehouse"
  have cfg: "read_config quiet_world = Inr sample_config" by code_simp
  have quiet: "\<forall>n. \<not> call_fails quiet_world n"
    by (simp add: quiet_world_def world_of_def)
  have r: "snd ?run = None"
    using cfg quiet by (rule run_returns)
  have sp: "sample_batch = [abc_record, xyz_record] @ abc_revised # []"
    by (simp add: sample_batch_def)
  have last: "\<forall>q\<in>set []. key_of q \<noteq> key_of abc_revised" by simp
  have same: "key_of abc_revised = key_of abc_record" by code_simp
  have t: "current_timestamp quiet_world
             (length (calls stale_warehouse) + 5 + 2 * length [abc_record, xyz_record]) = 1009"
    by code_simp
  from upsert_last_duplicate_wins [OF run_outcome [OF r] cfg sp last] r cfg sp same
  show ?thesis by (simp only: t simp_thms)
qed

text \<open>
  Claim C4. If a table has at most one row per (date, symbol) key before the writer runs,
  it has at most one row per key afterwards, whatever the record list and whether the
  run returns or raises. Nothing rejects a duplicate: in a run that returns, the calls
  are exactly those of \<open>run_calls\<close>, where every insert directly follows the delete of
  its own key.
\<close>

theorem upsert_preserves_unique_keys:
  assumes "insert_history_into_snowflake w records s = (s', q)"
    and "distinct (map row_key (table_rows s t))"
  shows "distinct (map row_key (table_rows s' t)) \<and>
         (q = None \<longrightarrow> records \<noteq> [] \<longrightarrow> read_config w = Inr cfg \<longrightarrow>
            calls s' = calls s @ run_calls cfg records)"
proof -
  have "calls s' = calls s @ run_calls cfg records"
    if "q = None" and ne: "records \<noteq> []" and cfg: "read_config w = Inr cfg"
  proof -
    from assms(1) that(1) have "insert_history_into_snowflake w records s = (s', None)" by simp
    from this ne obtain cfg' where "read_config w = Inr cfg'"
      and "calls s' = calls s @ run_calls cfg' records"
      by (rule run_success)
    with cfg show ?thesis by simp
  qed
  with run_distinct [OF assms] show ?thesis by blast
qed

theorem upsert_preserves_unique_keys_witness:
  "distinct (map row_key (table_rows tidy_warehouse sample_table)) \<and>
   map row_key (table_rows (fst (insert_history_into_snowflake quiet_world sample_batch tidy_warehouse))
      sample_table) = [(Date 2024 1 2, ''XYZ''), (Date 2024 1 2, ''ABC'')] \<and>
   distinct (map row_key
     (table_rows (fst (insert_history_into_snowflake quiet_world sample_batch tidy_warehouse))
        sample_table)) \<and>
   calls (fst (insert_history_into_snowflake quiet_world sample_batch tidy_warehouse)) =
     run_calls sample_config sample_batch"
proof -
  let ?run = "insert_history_into_snowflake quiet_world sample_batch tidy_warehouse"
  have d: "distinct (map row_key (table_rows tidy_warehouse sample_table))" by code_simp
  have cfg: "read_config quiet_world = Inr sample_config" by code_simp
  have quiet: "\<forall>n. \<not> call_fails quiet_world n"
    by (simp add: quiet_world_def world_of_def)
  have r: "snd ?run = None"
    using cfg quiet by (rule run_returns)
  have k: "map row_key (table_rows (fst ?run) sample_table) =
             [(Date 2024 1 2, ''XYZ''), (Date 2024 1 2, ''ABC'')]" by code_simp
  have ne: "sample_batch \<noteq> []" by (simp add: sample_batch_def)
  have c0: "calls tidy_warehouse = []" by (simp add: tidy_warehouse_def)
  from upsert_preserves_unique_keys [OF run_outcome [OF r] d, of sample_config] cfg ne d k c0
  show ?thesis by simp
qed

text \<open>
  Claim C7. Two records with the same date and different symbols, upserted together:
  afterwards the table holds exactly one row for each of the two keys, with the values
  of the respective record, and every row stored before under a third key is still
  there. The delete of one record's key does not touch the other's row.
\<close>

theorem two_symbols_same_date_coexist:
  assumes "insert_history_into_snowflake w [r1, r2] s = (s', None)"
    and "read_config w = Inr cfg"
    and "as_of_date r1 = as_of_date r2"
    and "symbol r1 \<noteq> symbol r2"
  shows "filter (\<lambda>y. row_key y = key_of r1) (table_rows s' (fq_table cfg)) =
           [\<lparr>row_values = r1, fetched_at = current_timestamp w (length (calls s) + 5)\<rparr>] \<and>
         filter (\<lambda>y. row_key y = key_of r2) (table_rows s' (fq_table cfg)) =
           [\<lparr>row_values = r2, fetched_at = current_timestamp w (length (calls s) + 7)\<rparr>] \<and>
         (\<forall>x\<in>set (table_rows s (fq_table cfg)).
            row_key x \<noteq> key_of r1 \<and> row_key x \<noteq> key_of r2 \<longrightarrow>
            x \<in> set (table_rows s' (fq_table cfg)))"
proof -
  let ?x1 = "\<lparr>row_values = r1, fetched_at = current_timestamp w (length (calls s) + 5)\<rparr>"
  let ?x2 = "\<lparr>row_values = r2, fetched_at = current_timestamp w (length (calls s) + 7)\<rparr>"
  let ?old = "table_rows s (fq_table cfg)"
  from assms(4) have ne: "key_of r1 \<noteq> key_of r2" by (simp add: key_of_def)
  have w: "written_rows w s [r1, r2] = [?x1, ?x2]"
    by (simp add: written_rows_def eval_nat_numeral)
  have "table_rows s' (fq_table cfg) = merge_rows ?old (written_rows w s [r1, r2])"
    using assms(1) _ assms(2) by (rule run_table_rows) simp
  then have t: "table_rows s' (fq_table cfg) = upsert_row ?x2 (upsert_row ?x1 ?old)"
    by (simp add: w merge_rows_def)
  have k1: "row_key ?x1 = key_of r1" and k2: "row_key ?x2 = key_of r2"
    by (simp_all add: row_key_def)
  have a: "filter (\<lambda>y. row_key y = key_of r1) (table_rows s' (fq_table cfg)) = [?x1]"
    unfolding t filter_upsert_row k1 k2 using ne by simp
  have b: "filter (\<lambda>y. row_key y = key_of r2) (table_rows s' (fq_table cfg)) = [?x2]"
    unfolding t filter_upsert_row k1 k2 by simp
  have c: "x \<in> set (table_rows s' (fq_table cfg))"
    if "x \<in> set ?old" and "row_key x \<noteq> key_of r1" and "row_key x \<noteq> key_of r2" for x
    unfolding t using that by (simp add: upsert_row_def k1 k2)
  from a b c show ?thesis by blast
qed

theorem two_symbols_same_date_coexist_witness:
  "snd (insert_history_into_snowflake quiet_world [abc_record, xyz_record] stale_warehouse) = None \<and>
   read_config quiet_world = Inr sample_config \<and>
   as_of_date abc_record = as_of_date xyz_record \<and> symbol abc_record \<noteq> symbol xyz_record \<and>
   filter (\<lambda>y. row_key y = key_of abc_record)
     (table_rows (fst (insert_history_into_snowflake quiet_world [abc_record, xyz_record] stale_warehouse))
        (fq_table sample_config)) = [\<lparr>row_values = abc_record, fetched_at = 1005\<rparr>] \<and>
   filter (\<lambda>y. row_key y = key_of xyz_record)
     (table_rows (fst (insert_history_into_snowflake quiet_world [abc_record, xyz_record] stale_warehouse))
        (fq_table sample_config)) = [\<lparr>row_values = xyz_record, fetched_at = 1007\<rparr>]"
proof -
  let ?run = "insert_history_into_snowflake quiet_world [abc_record, xyz_record] stale_warehouse"
  have cfg: "read_config quiet_world = Inr sample_config" by code_simp
  have quiet: "\<forall>n. \<not> call_fails quiet_world n"
    by (simp add: quiet_world_def world_of_def)
  have r: "snd ?run = None"
    using cfg quiet by (rule run_returns)
  have d: "as_of_date abc_record = as_of_date xyz_record" by code_simp
  have sy: "symbol abc_record \<noteq> symbol xyz_record" by code_simp
  have t1: "current_timestamp quiet_world (length (calls stale_warehouse) + 5) = 1005" by code_simp
  have t2: "current_timestamp quiet_world (length (calls stale_warehouse) + 7) = 1007" by code_simp
  from two_symbols_same_date_coexist [OF run_outcome [OF r] cfg d sy] r cfg d sy
  show ?thesis by (simp only: t1 t2 simp_thms)
qed

text \<open>
  Claim C9 says that the connection and the cursor are released on every exit path, the
  failure to create the cursor included. On that path the writer does not release the
  connection: when \<^verbatim>\<open>connect\<close> succeeds and \<^verbatim>\<open>ctx.cursor()\<close> raises, the \<^verbatim>\<open>finally\<close> block
  raises \<^verbatim>\<open>UnboundLocalError\<close> at \<^verbatim>\<open>cs.close()\<close>, so \<^verbatim>\<open>ctx.close()\<close> is never called: the
  only calls made are the connect and the cursor request, one more connection is open
  than before, and the caller sees \<^verbatim>\<open>UnboundLocalError\<close> in place of the database error.
  (The rest of the claim holds: \<open>run_success\<close> and \<open>body_failure_releases\<close>.)
\<close>

theorem cursor_failure_leaves_connection_open:
  assumes "records \<noteq> []"
    and "read_config w = Inr cfg"
    and "\<not> call_fails w (length (calls s))"
    and "call_fails w (Suc (length (calls s)))"
  shows "snd (insert_history_into_snowflake w records s) = Some (UnboundLocalError ''cs'') \<and>
         calls (fst (insert_history_into_snowflake w records s)) = calls s @ [connect_call cfg, Cursor] \<and>
         open_connections (fst (insert_history_into_snowflake w records s)) = Suc (open_connections s) \<and>
         commits (fst (insert_history_into_snowflake w records s)) = commits s"
proof -
  let ?s1 = "s\<lparr>calls := calls s @ [connect_call cfg], open_connections := Suc (open_connections s)\<rparr>"
  let ?s2 = "?s1\<lparr>calls := calls ?s1 @ [Cursor]\<rparr>"
  have a: "issue w (connect_call cfg) s = (?s1, None)"
    using assms(3) by (simp add: issue_def connect_call_def)
  have b: "issue w Cursor ?s1 = (?s2, Some DatabaseError)"
    using assms(4) by (simp add: issue_def)
  have "insert_history_into_snowflake w records s = (?s2, Some (UnboundLocalError ''cs''))"
    using assms(1,2) by (simp add: insert_history_into_snowflake_def a b)
  then show ?thesis by simp
qed

theorem cursor_failure_leaves_connection_open_witness:
  "[abc_record] \<noteq> [] \<and> read_config cursor_fails_world = Inr sample_config \<and>
   \<not> call_fails cursor_fails_world (length (calls empty_warehouse)) \<and>
   call_fails cursor_fails_world (Suc (length (calls empty_warehouse))) \<and>
   snd (insert_history_into_snowflake cursor_fails_world [abc_record] empty_warehouse) =
     Some (UnboundLocalError ''cs'') \<and>
   calls (fst (insert_history_into_snowflake cursor_fails_world [abc_record] empty_warehouse)) =
     [connect_call sample_config, Cursor] \<and>
   open_connections (fst (insert_history_into_snowflake cursor_fails_world [abc_record] empty_warehouse)) = 1"
proof -
  have ne: "[abc_record] \<noteq> []" by simp
  have cfg: "read_config cursor_fails_world = Inr sample_config" by code_simp
  have ok0: "\<not> call_fails cursor_fails_world (length (calls empty_warehouse))" by code_simp
  have ko1: "call_fails cursor_fails_world (Suc (length (calls empty_warehouse)))" by code_simp
  have e: "calls empty_warehouse = []" "open_connections empty_warehouse = 0"
    by (simp_all add: empty_warehouse_def)
  from cursor_failure_leaves_connection_open [OF ne cfg ok0 ko1] ne cfg ok0 ko1
  show ?thesis by (simp add: e)
qed

section \<open>Properties of the fetcher\<close>

lemma print_then_returns:
  "snd (print_then w line rest) = Inr rs \<Longrightarrow> snd rest = Inr rs"
  by (cases "stdout_raises w line") (simp_all add: print_then_def)

lemma handle_payload_sorted:
  "snd (handle_payload lib w ticker data) = Inr rs \<Longrightarrow>
     sorted (map (\<lambda>r. date_ord (as_of_date r)) rs)"
proof (cases data)
  case (JObj kvs)
  assume r: "snd (handle_payload lib w ticker data) = Inr rs"
  show ?thesis
  proof (cases "map_of kvs series_key")
    case None
    with JObj r have
      "snd (print_then w (LogUnexpected ticker (map fst kvs))
         (print_then w (LogMessage (provider_message kvs)) ([], Inr []))) = Inr rs"
      by simp
    then have "snd (print_then w (LogMessage (provider_message kvs)) ([], Inr [])) = Inr rs"
      by (rule print_then_returns)
    then have "snd (([], Inr []) :: log_event list \<times> (error + price_record list)) = Inr rs"
      by (rule print_then_returns)
    then show ?thesis by auto
  next
    case (Some v)
    show ?thesis
    proof (cases v)
      case (JObj items)
      with \<open>data = JObj kvs\<close> Some r obtain parsed where
        "rs = sort_key (\<lambda>r. date_ord (as_of_date r)) parsed"
        by (cases "parse_entries lib ticker items") (auto simp: then_do_def)
      then show ?thesis by simp
    qed (use \<open>data = JObj kvs\<close> Some r in simp_all)
  qed
qed simp_all

lemma field_converts_subscript:
  assumes "field_converts conv vals k"
  obtains x where "then_do (subscript (JObj vals) k) conv = Inr x"
proof -
  from assms obtain v where v: "map_of vals k = Some v" and "\<not> isl (conv v)"
    by (auto simp: field_converts_def split: option.splits)
  then obtain x where "conv v = Inr x" by (cases "conv v") simp_all
  with v have "then_do (subscript (JObj vals) k) conv = Inr x"
    by (simp add: then_do_def)
  then show thesis by (rule that)
qed

lemma parse_entry_converts:
  assumes "entry_converts lib item"
  shows "\<not> isl (parse_entry lib ticker item)"
proof -
  obtain date_str body where item: "item = (date_str, body)" by (cases item)
  with assms obtain vals where vals: "body = JObj vals"
    by (cases body) simp_all
  from assms item vals obtain d where d: "strptime_ymd lib date_str = Some d"
    by auto
  from assms item vals have
    c: "field_converts (py_float lib) vals ''1. open''"
       "field_converts (py_float lib) vals ''2. high''"
       "field_converts (py_float lib) vals ''3. low''"
       "field_converts (py_float lib) vals ''4. close''"
       "field_converts (py_int lib) vals ''5. volume''"
    by simp_all
  from c(1) obtain opn where 1: "then_do (subscript (JObj vals) ''1. open'') (py_float lib) = Inr opn"
    by (rule field_converts_subscript)
  from c(2) obtain h where 2: "then_do (subscript (JObj vals) ''2. high'') (py_float lib) = Inr h"
    by (rule field_converts_subscript)
  from c(3) obtain l where 3: "then_do (subscript (JObj vals) ''3. low'') (py_float lib) = Inr l"
    by (rule field_converts_subscript)
  from c(4) obtain c' where 4: "then_do (subscript (JObj vals) ''4. close'') (py_float lib) = Inr c'"
    by (rule field_converts_subscript)
  from c(5) obtain v where 5: "then_do (subscript (JObj vals) ''5. volume'') (py_int lib) = Inr v"
    by (rule field_converts_subscript)
  have "parse_entry lib ticker (date_str, JObj vals) =
          Inr \<lparr>as_of_date = d, symbol = ticker, open_price = opn, high_price = h,
               low_price = l, close_price = c', volume = v\<rparr>"
    unfolding parse_entry_def fst_conv snd_conv d 1 2 3 4 5
    by (simp add: then_do_def)
  with item vals show ?thesis by simp
qed

lemma parse_entries_converts:
  "\<forall>item\<in>set items. entry_converts lib item \<Longrightarrow> \<not> isl (parse_entries lib ticker items)"
proof (induction items)
  case Nil
  show ?case by simp
next
  case (Cons item items)
  from Cons.prems have "\<not> isl (parse_entry lib ticker item)"
    by (simp add: parse_entry_converts)
  then obtain r where r: "parse_entry lib ticker item = Inr r"
    by (cases "parse_entry lib ticker item") simp_all
  from Cons have "\<not> isl (parse_entries lib ticker items)" by simp
  then obtain rs where rs: "parse_entries lib ticker items = Inr rs"
    by (cases "parse_entries lib ticker items") simp_all
  show ?case by (simp add: r rs then_do_def)
qed

section \<open>Claims about the fetcher\<close>

text \<open>
  Claim C2. Whatever list the fetcher returns is sorted ascending by date, in whatever
  order the payload lists its dates.
\<close>

theorem fetch_sorted_by_date:
  assumes "snd (fetch_history_for_symbol lib w ticker) = Inr rs"
  shows "sorted (map (\<lambda>r. date_ord (as_of_date r)) rs)"
proof -
  from assms consider "rs = []"
    | data where "snd (handle_payload lib w ticker data) = Inr rs"
    by (auto simp: fetch_history_for_symbol_def
          split: option.splits sum.splits if_splits dest!: print_then_returns)
  then show ?thesis
  proof cases
    case 1
    then show ?thesis by simp
  next
    case 2
    then show ?thesis by (rule handle_payload_sorted)
  qed
qed

theorem fetch_sorted_by_date_witness:
  "snd (fetch_history_for_symbol sample_lib (world_of (ok_json unordered_payload) []) ''ABC'') =
     Inr [\<lparr>as_of_date = Date 2023 12 29, symbol = ''ABC'', open_price = Finite 8,
           high_price = Finite 9, low_price = Finite 7, close_price = Finite 8, volume = 700\<rparr>,
          abc_record,
          \<lparr>as_of_date = Date 2024 1 3, symbol = ''ABC'', open_price = Finite 11,
           high_price = Finite 13, low_price = Finite 10, close_price = Finite 12, volume = 900\<rparr>] \<and>
   sorted (map (\<lambda>r. date_ord (as_of_date r))
     [\<lparr>as_of_date = Date 2023 12 29, symbol = ''ABC'', open_price = Finite 8,
           high_price = Finite 9, low_price = Finite 7, close_price = Finite 8, volume = 700\<rparr>,
          abc_record,
          \<lparr>as_of_date = Date 2024 1 3, symbol = ''ABC'', open_price = Finite 11,
           high_price = Finite 13, low_price = Finite 10, close_price = Finite 12, volume = 900\<rparr>])"
proof -
  have h: "snd (fetch_history_for_symbol sample_lib (world_of (ok_json unordered_payload) []) ''ABC'') =
     Inr [\<lparr>as_of_date = Date 2023 12 29, symbol = ''ABC'', open_price = Finite 8,
           high_price = Finite 9, low_price = Finite 7, close_price = Finite 8, volume = 700\<rparr>,
          abc_record,
          \<lparr>as_of_date = Date 2024 1 3, symbol = ''ABC'', open_price = Finite 11,
           high_price = Finite 13, low_price = Finite 10, close_price = Finite 12, volume = 900\<rparr>]"
    by code_simp
  from fetch_sorted_by_date [OF h] h show ?thesis by blast
qed

text \<open>
  Claim C5 says that on status 429 the fetcher returns the empty list, logs the warning
  and never raises. The warning is printed before the return, and the print raises when
  the standard output cannot encode the line: with an ASCII standard output the
  fetcher ends with \<^verbatim>\<open>UnicodeEncodeError\<close> and returns nothing.
\<close>

theorem fetch_rate_limited_counterexample:
  "status_code rate_limited = 429 \<and>
   fetch_history_for_symbol sample_lib ascii_stdout_world ''NVDA'' = ([], Inl UnicodeEncodeError)"
  by code_simp

text \<open>
  Claim C5, amended. When the provider answers with status 429 (the API key being set
  and the request getting through) and the standard output takes the warning line, the
  fetcher prints the rate-limit warning and returns the empty list; it does not raise.
\<close>

theorem fetch_rate_limited:
  assumes "environ w ''ALPHAVANTAGE_API_KEY'' = Some api_key"
    and "http_get w (request_url ticker api_key) = Inr resp"
    and "status_code resp = 429"
    and "stdout_raises w (LogRateLimited ticker) = None"
  shows "fetch_history_for_symbol lib w ticker = ([LogRateLimited ticker], Inr [])"
  using assms by (simp add: fetch_history_for_symbol_def print_then_def)

theorem fetch_rate_limited_witness:
  "environ (world_of rate_limited []) ''ALPHAVANTAGE_API_KEY'' = Some ''demo'' \<and>
   http_get (world_of rate_limited []) (request_url ''NVDA'' ''demo'') = Inr rate_limited \<and>
   status_code rate_limited = 429 \<and>
   stdout_raises (world_of rate_limited []) (LogRateLimited ''NVDA'') = None \<and>
   fetch_history_for_symbol sample_lib (world_of rate_limited []) ''NVDA'' =
     ([LogRateLimited ''NVDA''], Inr [])"
proof -
  have k: "environ (world_of rate_limited []) ''ALPHAVANTAGE_API_KEY'' = Some ''demo''"
    by (simp add: world_of_def sample_environ_def)
  have g: "http_get (world_of rate_limited []) (request_url ''NVDA'' ''demo'') = Inr rate_limited"
    by (simp add: world_of_def)
  have c: "status_code rate_limited = 429" by (simp add: rate_limited_def)
  have p: "stdout_raises (world_of rate_limited []) (LogRateLimited ''NVDA'') = None"
    by (simp add: world_of_def)
  from fetch_rate_limited [OF k g c p] k g c p show ?thesis by simp
qed

text \<open>
  Claim C1 says that the fetcher never raises, malformed bodies, dates and numbers
  included. It does raise there: nothing in it catches an exception. The three inputs
  below are a body that is not JSON, a date key \<^verbatim>\<open>01/02/2024\<close> and an open price
  \<^verbatim>\<open>n/a\<close>.
\<close>

theorem fetch_raises_counterexample:
  "snd (fetch_history_for_symbol sample_lib (world_of not_json []) ''ABC'') = Inl JSONDecodeError \<and>
   snd (fetch_history_for_symbol sample_lib (world_of (ok_json bad_date_payload) []) ''ABC'') = Inl ValueError \<and>
   snd (fetch_history_for_symbol sample_lib (world_of (ok_json non_numeric_payload) []) ''ABC'') = Inl ValueError"
  by code_simp

text \<open>
  Claim C1, amended. Given a response, the fetcher returns the empty list instead of
  raising on each failure it guards against, as long as the standard output takes the
  lines it prints there: status 429, every other status that is not ok, and an ok
  response whose body is a JSON object without the series key. And it does not raise
  on an ok response whose body is a JSON object holding, under the series key, an
  object all of whose entries convert (the date parses, the five vals are present,
  the prices convert to floats and the volume to an integer).
\<close>

theorem fetch_returns_on_guarded_failures:
  assumes "environ w ''ALPHAVANTAGE_API_KEY'' = Some api_key"
    and "http_get w (request_url ticker api_key) = Inr resp"
  shows "(status_code resp = 429 \<and> stdout_raises w (LogRateLimited ticker) = None \<longrightarrow>
            snd (fetch_history_for_symbol lib w ticker) = Inr []) \<and>
         (status_code resp \<noteq> 429 \<and> \<not> ok resp \<and>
          stdout_raises w (LogHttpFailure ticker (status_code resp)) = None \<longrightarrow>
            snd (fetch_history_for_symbol lib w ticker) = Inr []) \<and>
         (status_code resp \<noteq> 429 \<and> ok resp \<and> json_body resp = Some (JObj kvs) \<and>
          map_of kvs series_key = None \<and>
          stdout_raises w (LogUnexpected ticker (map fst kvs)) = None \<and>
          stdout_raises w (LogMessage (provider_message kvs)) = None \<longrightarrow>
            snd (fetch_history_for_symbol lib w ticker) = Inr []) \<and>
         (status_code resp \<noteq> 429 \<and> ok resp \<and> json_body resp = Some (JObj kvs) \<and>
          map_of kvs series_key = Some (JObj items) \<and>
          (\<forall>item\<in>set items. entry_converts lib item) \<longrightarrow>
            \<not> isl (snd (fetch_history_for_symbol lib w ticker)))"
proof -
  have a: "snd (fetch_history_for_symbol lib w ticker) = Inr []"
    if "status_code resp = 429" and "stdout_raises w (LogRateLimited ticker) = None"
    using assms that by (simp add: fetch_history_for_symbol_def print_then_def)
  have b: "snd (fetch_history_for_symbol lib w ticker) = Inr []"
    if "status_code resp \<noteq> 429" and "\<not> ok resp"
      and "stdout_raises w (LogHttpFailure ticker (status_code resp)) = None"
    using assms that by (simp add: fetch_history_for_symbol_def print_then_def)
  have c: "snd (fetch_history_for_symbol lib w ticker) = Inr []"
    if "status_code resp \<noteq> 429" and "ok resp" and "json_body resp = Some (JObj kvs)"
      and "map_of kvs series_key = None"
      and "stdout_raises w (LogUnexpected ticker (map fst kvs)) = None"
      and "stdout_raises w (LogMessage (provider_message kvs)) = None"
    using assms that by (simp add: fetch_history_for_symbol_def print_then_def)
  have d: "\<not> isl (snd (fetch_history_for_symbol lib w ticker))"
    if "status_code resp \<noteq> 429" and "ok resp" and "json_body resp = Some (JObj kvs)"
      and "map_of kvs series_key = Some (JObj items)"
      and conv: "\<forall>item\<in>set items. entry_converts lib item"
  proof -
    from conv have "\<not> isl (parse_entries lib ticker items)"
      by (rule parse_entries_converts)
    then obtain parsed where "parse_entries lib ticker items = Inr parsed"
      by (cases "parse_entries lib ticker items") simp_all
    with assms that(1-4) show ?thesis
      by (simp add: fetch_history_for_symbol_def then_do_def)
  qed
  from a b c d show ?thesis by blast
qed

theorem fetch_returns_on_guarded_failures_witness:
  "snd (fetch_history_for_symbol sample_lib (world_of rate_limited []) ''ABC'') = Inr [] \<and>
   snd (fetch_history_for_symbol sample_lib (world_of server_error []) ''ABC'') = Inr [] \<and>
   snd (fetch_history_for_symbol sample_lib (world_of (ok_json note_payload) []) ''ABC'') = Inr [] \<and>
   \<not> isl (snd (fetch_history_for_symbol sample_lib (world_of (ok_json abc_payload) []) ''ABC''))"
proof -
  let ?note = "[(''Note'', JStr ''Thank you for using Alpha Vantage!'')]"
  let ?items = "[(''2024-01-02'', entry ''10'' ''12'' ''9'' ''11'' ''1000'')]"
  have k: "environ (world_of resp []) ''ALPHAVANTAGE_API_KEY'' = Some ''demo''" for resp
    by (simp add: world_of_def sample_environ_def)
  have g: "http_get (world_of resp []) (request_url ''ABC'' ''demo'') = Inr resp" for resp
    by (simp add: world_of_def)
  have p: "stdout_raises (world_of resp []) line = None" for resp line
    by (simp add: world_of_def)
  have r1: "status_code rate_limited = 429" by (simp add: rate_limited_def)
  have r2: "status_code server_error \<noteq> 429" "\<not> ok server_error"
    by (simp_all add: server_error_def ok_def)
  have r3: "status_code (ok_json body) \<noteq> 429" "ok (ok_json body)" for body
    by (simp_all add: ok_json_def ok_def)
  have n: "json_body (ok_json note_payload) = Some (JObj ?note)"
    "map_of ?note series_key = None"
    by (simp_all add: ok_json_def note_payload_def series_key_def)
  have b: "json_body (ok_json abc_payload) =
             Some (JObj [(''Time Series (Daily)'', JObj ?items)])"
    "map_of [(''Time Series (Daily)'', JObj ?items)] series_key = Some (JObj ?items)"
    by (simp_all add: ok_json_def abc_payload_def series_key_def)
  have e: "\<forall>item\<in>set ?items. entry_converts sample_lib item" by code_simp
  from fetch_returns_on_guarded_failures [OF k g, of rate_limited sample_lib] r1 p
  have 1: "snd (fetch_history_for_symbol sample_lib (world_of rate_limited []) ''ABC'') = Inr []"
    by blast
  from fetch_returns_on_guarded_failures [OF k g, of server_error sample_lib] r2 p
  have 2: "snd (fetch_history_for_symbol sample_lib (world_of server_error []) ''ABC'') = Inr []"
    by blast
  from fetch_returns_on_guarded_failures [OF k g, of "ok_json note_payload" sample_lib ?note] r3 n p
  have 3: "snd (fetch_history_for_symbol sample_lib (world_of (ok_json note_payload) []) ''ABC'') = Inr []"
    by blast
  from fetch_returns_on_guarded_failures [OF k g, of "ok_json abc_payload" sample_lib
      "[(''Time Series (Daily)'', JObj ?items)]" ?items] r3 b e
  have 4: "\<not> isl (snd (fetch_history_for_symbol sample_lib (world_of (ok_json abc_payload) []) ''ABC''))"
    by blast
  from 1 2 3 4 show ?thesis by blast
qed

section \<open>End to end\<close>

lemma run_calls_length: "length (run_calls cfg records) = 7 + 2 * length records"
  by (simp add: run_calls_def loop_calls_def length_concat comp_def sum_list_triv)

lemma run_calls_of_success:
  assumes "insert_history_into_snowflake w records s = (s', None)" and "records \<noteq> []"
  shows "length (calls s') = length (calls s) + 7 + 2 * length records"
proof -
  from assms obtain cfg where "calls s' = calls s @ run_calls cfg records"
    by (rule run_success)
  then show ?thesis by (simp add: run_calls_length)
qed

text \<open>
  Claim C6. For the symbol \<^verbatim>\<open>ABC\<close> and a body whose series holds the single entry
  \<^verbatim>\<open>2024-01-02\<close> with open 10, high 12, low 9, close 11 and volume 1000 (all strings),
  in a library that converts these six strings as Python does: the fetcher returns
  exactly the record (2024-01-02, ABC, 10.0, 12.0, 9.0, 11.0, 1000), and upserting it
  twice, no database call raising, leaves exactly one row for its key, with these
  values and the timestamp of the second insert; it is the only row of the table when
  the table was empty or absent before.
\<close>

theorem abc_end_to_end:
  assumes "environ w ''ALPHAVANTAGE_API_KEY'' = Some api_key"
    and "http_get w (request_url ''ABC'' api_key) = Inr resp"
    and "status_code resp \<noteq> 429" and "ok resp"
    and "json_body resp = Some (JObj kvs)"
    and "map_of kvs series_key =
           Some (JObj [(''2024-01-02'', entry ''10'' ''12'' ''9'' ''11'' ''1000'')])"
    and "strptime_ymd lib ''2024-01-02'' = Some (Date 2024 1 2)"
    and "py_float lib (JStr ''10'') = Inr (Finite 10)"
    and "py_float lib (JStr ''12'') = Inr (Finite 12)"
    and "py_float lib (JStr ''9'') = Inr (Finite 9)"
    and "py_float lib (JStr ''11'') = Inr (Finite 11)"
    and "py_int lib (JStr ''1000'') = Inr 1000"
    and "read_config w = Inr cfg"
    and "\<forall>n. \<not> call_fails w n"
    and "insert_history_into_snowflake w [abc_record] s = (s1, q1)"
    and "insert_history_into_snowflake w [abc_record] s1 = (s2, q2)"
  shows "fetch_history_for_symbol lib w ''ABC'' = ([], Inr [abc_record]) \<and>
         q1 = None \<and> q2 = None \<and>
         filter (\<lambda>y. row_key y = key_of abc_record) (table_rows s2 (fq_table cfg)) =
           [\<lparr>row_values = abc_record, fetched_at = current_timestamp w (length (calls s) + 14)\<rparr>] \<and>
         (table_rows s (fq_table cfg) = [] \<longrightarrow>
            table_rows s2 (fq_table cfg) =
              [\<lparr>row_values = abc_record, fetched_at = current_timestamp w (length (calls s) + 14)\<rparr>])"
proof -
  let ?t = "fq_table cfg"
  let ?x1 = "\<lparr>row_values = abc_record, fetched_at = current_timestamp w (length (calls s) + 5)\<rparr>"
  let ?x2 = "\<lparr>row_values = abc_record, fetched_at = current_timestamp w (length (calls s) + 14)\<rparr>"
  have item: "parse_entry lib ''ABC'' (''2024-01-02'', entry ''10'' ''12'' ''9'' ''11'' ''1000'') =
                Inr abc_record"
    by (simp add: parse_entry_def entry_def then_do_def abc_record_def assms(7-12))
  have fetch: "fetch_history_for_symbol lib w ''ABC'' = ([], Inr [abc_record])"
    by (simp add: fetch_history_for_symbol_def assms(1-6) item then_do_def)
  from run_returns [OF assms(13,14), of "[abc_record]" s] assms(15) have q1: "q1 = None" by simp
  from run_returns [OF assms(13,14), of "[abc_record]" s1] assms(16) have q2: "q2 = None" by simp
  note r1 = assms(15) [unfolded q1] and r2 = assms(16) [unfolded q2]
  have len: "length (calls s1) = length (calls s) + 9"
    using run_calls_of_success [OF r1] by simp
  have w1: "written_rows w s [abc_record] = [?x1]"
    by (simp add: written_rows_def eval_nat_numeral)
  have w2: "written_rows w s1 [abc_record] = [?x2]"
    by (simp add: written_rows_def len eval_nat_numeral)
  have t1: "table_rows s1 ?t = upsert_row ?x1 (table_rows s ?t)"
    using run_table_rows [OF r1 _ assms(13)] by (simp add: w1 merge_rows_def)
  have t2: "table_rows s2 ?t = upsert_row ?x2 (table_rows s1 ?t)"
    using run_table_rows [OF r2 _ assms(13)] by (simp add: w2 merge_rows_def)
  have k: "row_key ?x1 = key_of abc_record" "row_key ?x2 = key_of abc_record"
    by (simp_all add: row_key_def)
  have one: "filter (\<lambda>y. row_key y = key_of abc_record) (table_rows s2 ?t) = [?x2]"
    unfolding t2 filter_upsert_row k by simp
  have only: "table_rows s2 ?t = [?x2]" if "table_rows s ?t = []"
    unfolding t2 t1 that by (simp add: upsert_row_def k)
  from fetch q1 q2 one only show ?thesis by blast
qed

theorem abc_end_to_end_witness:
  "fetch_history_for_symbol sample_lib (world_of (ok_json abc_payload) []) ''ABC'' = ([], Inr [abc_record]) \<and>
   snd (insert_history_into_snowflake (world_of (ok_json abc_payload) []) [abc_record] empty_warehouse) = None \<and>
   snd (insert_history_into_snowflake (world_of (ok_json abc_payload) []) [abc_record]
     (fst (insert_history_into_snowflake (world_of (ok_json abc_payload) []) [abc_record] empty_warehouse))) = None \<and>
   table_rows (fst (insert_history_into_snowflake (world_of (ok_json abc_payload) []) [abc_record]
     (fst (insert_history_into_snowflake (world_of (ok_json abc_payload) []) [abc_record] empty_warehouse))))
     ''DBT_DEMO.RAW.STOCK_PRICES'' = [\<lparr>row_values = abc_record, fetched_at = 1014\<rparr>]"
proof -
  let ?w = "world_of (ok_json abc_payload) []"
  let ?r1 = "insert_history_into_snowflake ?w [abc_record] empty_warehouse"
  let ?r2 = "insert_history_into_snowflake ?w [abc_record] (fst ?r1)"
  let ?items = "[(''2024-01-02'', entry ''10'' ''12'' ''9'' ''11'' ''1000'')]"
  have a1: "environ ?w ''ALPHAVANTAGE_API_KEY'' = Some ''demo''"
    by (simp add: world_of_def sample_environ_def)
  have a2: "http_get ?w (request_url ''ABC'' ''demo'') = Inr (ok_json abc_payload)"
    by (simp add: world_of_def)
  have a3: "status_code (ok_json abc_payload) \<noteq> 429" by (simp add: ok_json_def)
  have a4: "ok (ok_json abc_payload)" by (simp add: ok_json_def ok_def)
  have a5: "json_body (ok_json abc_payload) = Some (JObj [(''Time Series (Daily)'', JObj ?items)])"
    by (simp add: ok_json_def abc_payload_def)
  have a6: "map_of [(''Time Series (Daily)'', JObj ?items)] series_key = Some (JObj ?items)"
    by (simp add: series_key_def)
  have l1: "strptime_ymd sample_lib ''2024-01-02'' = Some (Date 2024 1 2)" by code_simp
  have l2: "py_float sample_lib (JStr ''10'') = Inr (Finite 10)" by code_simp
  have l3: "py_float sample_lib (JStr ''12'') = Inr (Finite 12)" by code_simp
  have l4: "py_float sample_lib (JStr ''9'') = Inr (Finite 9)" by code_simp
  have l5: "py_float sample_lib (JStr ''11'') = Inr (Finite 11)" by code_simp
  have l6: "py_int sample_lib (JStr ''1000'') = Inr 1000" by code_simp
  have cfg: "read_config ?w = Inr sample_config" by code_simp
  have quiet: "\<forall>n. \<not> call_fails ?w n" by (simp add: world_of_def)
  have t: "fq_table sample_config = ''DBT_DEMO.RAW.STOCK_PRICES''" by code_simp
  have e: "table_rows empty_warehouse (fq_table sample_config) = []"
    by (simp add: table_rows_def empty_warehouse_def)
  have n: "current_timestamp ?w (length (calls empty_warehouse) + 14) = 1014"
    by (simp add: world_of_def empty_warehouse_def)
  from abc_end_to_end [OF a1 a2 a3 a4 a5 a6 l1 l2 l3 l4 l5 l6 cfg quiet
      surjective_pairing surjective_pairing] e
  show ?thesis by (simp add: t n)
qed

end
